theory Spec2Isabelle
  imports Main "HOL-Library.Sublist" "HOL-Library.Char_ord" "HOL-Library.List_Lexorder"
begin

section \<open>Data model (backend/src/types/index.ts)\<close>

datatype Severity = LOW | MEDIUM | HIGH | CRITICAL

datatype CheckStatus = PASS | FAIL | ERROR

datatype ResourceType = S3 | EC2 | IAM | RDS | SECURITY_GROUP

text \<open>
  A JavaScript date field. The declared type is \<open>Date\<close> (milliseconds since the epoch),
  but the storage layer tests \<open>instanceof Date\<close> and passes any other value through,
  and an item read back from the table carries ISO strings in these fields. Both shapes
  are therefore values of the model.
\<close>

datatype datetime = DateObj int | DateStr string

record SecurityFinding =
  resourceType :: ResourceType
  resourceId :: string
  checkName :: string
  status :: CheckStatus
  severity :: Severity
  message :: string
  timestamp :: "datetime option"
  region :: "string option"

record ScanSummary =
  totalResources :: nat
  passed :: nat
  failed :: nat
  errors :: nat
  highSeverity :: nat
  criticalSeverity :: nat
  scanTime :: datetime

datatype ScanStatus = running | completed | failed_scan

record ScanResult =
  scanId :: string
  summary :: ScanSummary
  findings :: "SecurityFinding list"
  startTime :: datetime
  endTime :: "datetime option"
  scan_status :: ScanStatus

section \<open>Rendering numbers inside template strings\<close>

definition digit_char :: "nat \<Rightarrow> char" where
  "digit_char d = char_of (48 + d)"

fun string_of_nat :: "nat \<Rightarrow> string" where
  "string_of_nat n =
     (if n < 10 then [digit_char n] else string_of_nat (n div 10) @ [digit_char (n mod 10)])"

declare string_of_nat.simps [simp del]

definition string_of_int :: "int \<Rightarrow> string" where
  "string_of_int i = (if i < 0 then CHR ''-'' # string_of_nat (nat (- i)) else string_of_nat (nat i))"

section \<open>Summary computation (calculateSummary)\<close>

text \<open>\<open>findings.filter(p).length\<close>\<close>

definition count_where :: "('a \<Rightarrow> bool) \<Rightarrow> 'a list \<Rightarrow> nat" where
  "count_where p xs = length (filter p xs)"

text \<open>The summary's \<open>scanTime\<close> is \<open>new Date()\<close>: the clock reading \<open>now\<close>.\<close>

definition calculateSummary :: "int \<Rightarrow> SecurityFinding list \<Rightarrow> ScanSummary" where
  "calculateSummary now fs =
     \<lparr> totalResources = length fs,
       passed = count_where (\<lambda>f. status f = PASS) fs,
       failed = count_where (\<lambda>f. status f = FAIL) fs,
       errors = count_where (\<lambda>f. status f = ERROR) fs,
       highSeverity = count_where (\<lambda>f. status f = FAIL \<and> severity f = HIGH) fs,
       criticalSeverity = count_where (\<lambda>f. status f = FAIL \<and> severity f = CRITICAL) fs,
       scanTime = DateObj now \<rparr>"

section \<open>Firewall rules (backend/src/aws/ec2.ts)\<close>

text \<open>The parts of the provider's \<open>IpPermission\<close> that the parser reads; all optional.\<close>

record IpPermission =
  IpProtocol :: "string option"
  FromPort :: "int option"
  ToPort :: "int option"
  IpRanges :: "string option list option"
  Ipv6Ranges :: "string option list option"

record SecurityGroupRule =
  protocol :: string
  fromPort :: "int option"
  toPort :: "int option"
  source :: string
  isOpenToWorld_flag :: bool

text \<open>\<open>x || d\<close> on an optional string: undefined and the empty string both give \<open>d\<close>.\<close>

definition or_string :: "string option \<Rightarrow> string \<Rightarrow> string" where
  "or_string x d = (case x of None \<Rightarrow> d | Some s \<Rightarrow> (if s = [] then d else s))"

text \<open>\<open>xs || []\<close> on an optional array.\<close>

definition or_list :: "'a list option \<Rightarrow> 'a list" where
  "or_list x = (case x of None \<Rightarrow> [] | Some xs \<Rightarrow> xs)"

text \<open>\<open>x ?? d\<close>\<close>

definition nullish :: "'a option \<Rightarrow> 'a \<Rightarrow> 'a" where
  "nullish x d = (case x of None \<Rightarrow> d | Some v \<Rightarrow> v)"

definition isOpenToWorld :: "string \<Rightarrow> bool" where
  "isOpenToWorld cidr = (cidr = ''0.0.0.0/0'' \<or> cidr = ''::/0'')"

definition rule_of :: "IpPermission \<Rightarrow> string option \<Rightarrow> SecurityGroupRule" where
  "rule_of permission cidr =
     \<lparr> protocol = or_string (IpProtocol permission) ''all'',
       fromPort = FromPort permission,
       toPort = ToPort permission,
       source = or_string cidr '''',
       isOpenToWorld_flag = isOpenToWorld (or_string cidr '''') \<rparr>"

fun parseInboundRules :: "IpPermission list \<Rightarrow> SecurityGroupRule list" where
  "parseInboundRules [] = []"
| "parseInboundRules (permission # rest) =
     map (rule_of permission) (or_list (IpRanges permission))
     @ map (rule_of permission) (or_list (Ipv6Ranges permission))
     @ parseInboundRules rest"

definition rule_opens_port :: "int \<Rightarrow> SecurityGroupRule \<Rightarrow> bool" where
  "rule_opens_port port rule =
     (if \<not> isOpenToWorld_flag rule then False
      else if protocol rule = ''-1'' then True
      else (port \<ge> nullish (fromPort rule) 0 \<and> port \<le> nullish (toPort rule) 65535))"

text \<open>\<open>rules.some(...)\<close>: the first rule that opens the port decides.\<close>

fun hasPortOpenToWorld :: "SecurityGroupRule list \<Rightarrow> int \<Rightarrow> bool" where
  "hasPortOpenToWorld [] port = False"
| "hasPortOpenToWorld (rule # rules) port =
     (if rule_opens_port port rule then True else hasPortOpenToWorld rules port)"

text \<open>The parts of the provider's \<open>SecurityGroup\<close> that \<open>listSecurityGroups\<close> reads.\<close>

record SecurityGroup =
  GroupId :: "string option"
  GroupName :: "string option"
  Description :: "string option"
  VpcId :: "string option"
  IpPermissions :: "IpPermission list option"

record SecurityGroupInfo =
  groupId :: string
  groupName :: string
  description :: string
  vpcId :: "string option"
  inboundRules :: "SecurityGroupRule list"
  hasOpenSSH :: bool
  hasOpenRDP :: bool
  hasOpenToWorld :: bool

text \<open>One round of the loop of \<open>listSecurityGroups\<close>: a group without an id is skipped.\<close>

definition securityGroupInfo :: "SecurityGroup \<Rightarrow> SecurityGroupInfo option" where
  "securityGroupInfo sg =
     (case GroupId sg of
        None \<Rightarrow> None
      | Some gid \<Rightarrow>
          if gid = [] then None
          else
            (let rules = parseInboundRules (or_list (IpPermissions sg)) in
             Some \<lparr> groupId = gid,
                    groupName = or_string (GroupName sg) ''Unknown'',
                    description = or_string (Description sg) [],
                    vpcId = VpcId sg,
                    inboundRules = rules,
                    hasOpenSSH = hasPortOpenToWorld rules 22,
                    hasOpenRDP = hasPortOpenToWorld rules 3389,
                    hasOpenToWorld = list_ex isOpenToWorld_flag rules \<rparr>))"

record EC2InstanceInfo =
  instanceId :: string
  instance_name :: string
  state :: string
  instanceType :: string
  publicIp :: "string option"
  privateIp :: "string option"
  hasPublicIp :: bool
  securityGroups :: "string list"

section \<open>Errors\<close>

text \<open>
  A thrown JavaScript error, with the two properties the code reads. \<open>error_string\<close> is
  what a template literal makes of it (\<open>Error.prototype.toString\<close>).
\<close>

record js_error =
  err_name :: string
  err_message :: string

definition error_string :: "js_error \<Rightarrow> string" where
  "error_string e =
     (if err_name e = [] then err_message e
      else if err_message e = [] then err_name e
      else err_name e @ '': '' @ err_message e)"

section \<open>Storage buckets (aws/s3.ts, scanners/s3Scanner.ts)\<close>

record PublicAccessBlockConfiguration =
  BlockPublicAcls :: "bool option"
  BlockPublicPolicy :: "bool option"
  IgnorePublicAcls :: "bool option"
  RestrictPublicBuckets :: "bool option"

record PublicAccess =
  blockPublicAcls :: bool
  blockPublicPolicy :: bool
  ignorePublicAcls :: bool
  restrictPublicBuckets :: bool
  isFullyBlocked :: bool

text \<open>\<open>config?.Flag || false\<close>\<close>

definition flag_or_false :: "PublicAccessBlockConfiguration option \<Rightarrow>
    (PublicAccessBlockConfiguration \<Rightarrow> bool option) \<Rightarrow> bool" where
  "flag_or_false config sel =
     (case config of None \<Rightarrow> False
      | Some c \<Rightarrow> (case sel c of None \<Rightarrow> False | Some b \<Rightarrow> b))"

definition nothing_blocked :: PublicAccess where
  "nothing_blocked =
     \<lparr> blockPublicAcls = False, blockPublicPolicy = False, ignorePublicAcls = False,
       restrictPublicBuckets = False, isFullyBlocked = False \<rparr>"

text \<open>
  The argument is how the provider call settled: an error, or a response whose
  configuration may be missing.
\<close>

definition getPublicAccessBlock ::
    "js_error + PublicAccessBlockConfiguration option \<Rightarrow> PublicAccess" where
  "getPublicAccessBlock response =
     (case response of
        Inr config \<Rightarrow>
          (let a = flag_or_false config BlockPublicAcls;
               b = flag_or_false config BlockPublicPolicy;
               c = flag_or_false config IgnorePublicAcls;
               d = flag_or_false config RestrictPublicBuckets
           in \<lparr> blockPublicAcls = a, blockPublicPolicy = b, ignorePublicAcls = c,
                restrictPublicBuckets = d, isFullyBlocked = (a \<and> b \<and> c \<and> d) \<rparr>)
      | Inl e \<Rightarrow>
          (if err_name e = ''NoSuchPublicAccessBlockConfiguration'' then nothing_blocked
           else nothing_blocked))"

record Encryption =
  enc_enabled :: bool
  enc_type :: "string option"

record Versioning =
  ver_enabled :: bool
  mfaDelete :: bool

record S3BucketInfo =
  bucket_name :: string
  bucket_region :: string
  creationDate :: "int option"
  publicAccess :: PublicAccess
  encryption :: Encryption
  versioning :: Versioning

definition checkPublicAccess :: "S3BucketInfo \<Rightarrow> SecurityFinding" where
  "checkPublicAccess bucket =
     (let isBlocked = isFullyBlocked (publicAccess bucket) in
      \<lparr> resourceType = S3,
        resourceId = bucket_name bucket,
        checkName = ''Public Access Block'',
        status = (if isBlocked then PASS else FAIL),
        severity = (if isBlocked then LOW else HIGH),
        message = (if isBlocked then ''Public access is fully blocked for this bucket''
                   else ''Public access is NOT fully blocked. This bucket may be publicly accessible''),
        timestamp = None,
        region = Some (bucket_region bucket) \<rparr>)"

definition checkEncryption_s3 :: "S3BucketInfo \<Rightarrow> SecurityFinding" where
  "checkEncryption_s3 bucket =
     (let isEncrypted = enc_enabled (encryption bucket);
          encryptionType = or_string (enc_type (encryption bucket)) ''None'' in
      \<lparr> resourceType = S3,
        resourceId = bucket_name bucket,
        checkName = ''Server-Side Encryption'',
        status = (if isEncrypted then PASS else FAIL),
        severity = (if isEncrypted then LOW else MEDIUM),
        message = (if isEncrypted then ''Encryption is enabled using '' @ encryptionType
                   else ''Server-side encryption is NOT enabled. Data at rest is not protected''),
        timestamp = None,
        region = Some (bucket_region bucket) \<rparr>)"

definition checkVersioning :: "S3BucketInfo \<Rightarrow> SecurityFinding" where
  "checkVersioning bucket =
     (let isEnabled = ver_enabled (versioning bucket) in
      \<lparr> resourceType = S3,
        resourceId = bucket_name bucket,
        checkName = ''Versioning'',
        status = (if isEnabled then PASS else FAIL),
        severity = (if isEnabled then LOW else LOW),
        message = (if isEnabled then ''Versioning is enabled - objects can be recovered if deleted''
                   else ''Versioning is NOT enabled. Consider enabling for data protection''),
        timestamp = None,
        region = Some (bucket_region bucket) \<rparr>)"

text \<open>
  A scanner's argument is how its collector settled: \<open>Inl\<close> the error it raised,
  \<open>Inr\<close> the records it returned. The collector is awaited before the first finding
  is pushed, so the error branch starts from the empty list.
\<close>

definition scanner_error :: "ResourceType \<Rightarrow> string \<Rightarrow> string \<Rightarrow> string \<Rightarrow> js_error
    \<Rightarrow> SecurityFinding" where
  "scanner_error rt rid cname intro e =
     \<lparr> resourceType = rt, resourceId = rid, checkName = cname, status = ERROR,
       severity = HIGH, message = intro @ error_string e, timestamp = None,
       region = None \<rparr>"

definition scanS3Buckets :: "js_error + S3BucketInfo list \<Rightarrow> SecurityFinding list" where
  "scanS3Buckets collected =
     (case collected of
        Inr buckets \<Rightarrow>
          concat (map (\<lambda>bucket. [checkPublicAccess bucket, checkEncryption_s3 bucket,
                                  checkVersioning bucket]) buckets)
      | Inl e \<Rightarrow>
          [scanner_error S3 ''S3-SCANNER'' ''S3 Scan'' ''Error scanning S3 buckets: '' e])"

section \<open>Identity (aws/iam.ts, scanners/iamScanner.ts)\<close>

record IAMUserInfo =
  userName :: string
  userId :: string
  arn :: string
  hasMFA :: bool
  hasConsoleAccess :: bool
  attachedPolicies :: "string list"
  hasAdminAccess :: bool

record IAMAccountSummary =
  users :: int
  groups :: int
  roles :: int
  policies :: int
  mfaDevices :: int
  accountMFAEnabled :: bool

definition checkMFAEnabled :: "IAMUserInfo \<Rightarrow> SecurityFinding" where
  "checkMFAEnabled user =
     (if \<not> hasConsoleAccess user then
        \<lparr> resourceType = IAM, resourceId = userName user, checkName = ''MFA Enabled'',
          status = PASS, severity = LOW,
          message = ''User does not have console access, MFA not required'',
          timestamp = None, region = None \<rparr>
      else
        \<lparr> resourceType = IAM, resourceId = userName user, checkName = ''MFA Enabled'',
          status = (if hasMFA user then PASS else FAIL),
          severity = (if hasMFA user then LOW else HIGH),
          message = (if hasMFA user then ''MFA is enabled for this user''
                     else ''MFA is NOT enabled. User with console access should have MFA''),
          timestamp = None, region = None \<rparr>)"

definition checkAdminAccess :: "IAMUserInfo \<Rightarrow> SecurityFinding" where
  "checkAdminAccess user =
     \<lparr> resourceType = IAM, resourceId = userName user, checkName = ''Admin Access Check'',
       status = (if hasAdminAccess user then FAIL else PASS),
       severity = (if hasAdminAccess user then HIGH else LOW),
       message = (if hasAdminAccess user
                  then ''User has admin-level permissions. Ensure this is necessary''
                  else ''User does not have admin-level permissions''),
       timestamp = None, region = None \<rparr>"

definition checkRootMFA :: "bool \<Rightarrow> SecurityFinding" where
  "checkRootMFA enabled =
     \<lparr> resourceType = IAM, resourceId = ''ROOT-ACCOUNT'', checkName = ''Root Account MFA'',
       status = (if enabled then PASS else FAIL),
       severity = (if enabled then LOW else CRITICAL),
       message = (if enabled then ''Root account has MFA enabled''
                  else ''Root account does NOT have MFA enabled. This is a critical security risk''),
       timestamp = None, region = None \<rparr>"

text \<open>
  The two collectors run under \<open>Promise.all\<close>, which rejects when either does: the
  argument is \<open>Inl\<close> then.
\<close>

definition scanIAM :: "js_error + (IAMUserInfo list \<times> IAMAccountSummary) \<Rightarrow> SecurityFinding list"
  where
  "scanIAM collected =
     (case collected of
        Inr (us, accountSummary) \<Rightarrow>
          checkRootMFA (accountMFAEnabled accountSummary)
            # concat (map (\<lambda>user. [checkMFAEnabled user, checkAdminAccess user]) us)
      | Inl e \<Rightarrow> [scanner_error IAM ''IAM-SCANNER'' ''IAM Scan'' ''Error scanning IAM: '' e])"

section \<open>Databases (aws/rds.ts, scanners/rdsScanner.ts)\<close>

record RDSInstanceInfo =
  dbInstanceId :: string
  dbInstanceClass :: string
  engine :: string
  engineVersion :: string
  db_status :: string
  isPubliclyAccessible :: bool
  isEncrypted :: bool
  hasBackupEnabled :: bool
  backupRetentionPeriod :: int
  multiAZ :: bool
  vpcSecurityGroups :: "string list"

definition checkPublicAccessibility :: "RDSInstanceInfo \<Rightarrow> SecurityFinding" where
  "checkPublicAccessibility db =
     \<lparr> resourceType = RDS, resourceId = dbInstanceId db, checkName = ''Public Accessibility'',
       status = (if isPubliclyAccessible db then FAIL else PASS),
       severity = (if isPubliclyAccessible db then HIGH else LOW),
       message = (if isPubliclyAccessible db
                  then ''RDS instance is publicly accessible. This exposes your database to the internet''
                  else ''RDS instance is not publicly accessible''),
       timestamp = None, region = None \<rparr>"

definition checkEncryption_rds :: "RDSInstanceInfo \<Rightarrow> SecurityFinding" where
  "checkEncryption_rds db =
     \<lparr> resourceType = RDS, resourceId = dbInstanceId db, checkName = ''Encryption at Rest'',
       status = (if isEncrypted db then PASS else FAIL),
       severity = (if isEncrypted db then LOW else MEDIUM),
       message = (if isEncrypted db then ''Storage encryption is enabled''
                  else ''Storage encryption is NOT enabled. Data at rest is not protected''),
       timestamp = None, region = None \<rparr>"

definition checkBackupEnabled :: "RDSInstanceInfo \<Rightarrow> SecurityFinding" where
  "checkBackupEnabled db =
     \<lparr> resourceType = RDS, resourceId = dbInstanceId db, checkName = ''Automated Backups'',
       status = (if hasBackupEnabled db then PASS else FAIL),
       severity = (if hasBackupEnabled db then LOW else MEDIUM),
       message = (if hasBackupEnabled db
                  then ''Automated backups enabled with ''
                         @ string_of_int (backupRetentionPeriod db) @ '' day retention''
                  else ''Automated backups are NOT enabled. Enable for disaster recovery''),
       timestamp = None, region = None \<rparr>"

definition checkMultiAZ :: "RDSInstanceInfo \<Rightarrow> SecurityFinding" where
  "checkMultiAZ db =
     \<lparr> resourceType = RDS, resourceId = dbInstanceId db, checkName = ''Multi-AZ Deployment'',
       status = (if multiAZ db then PASS else FAIL),
       severity = (if multiAZ db then LOW else LOW),
       message = (if multiAZ db then ''Multi-AZ deployment is enabled for high availability''
                  else ''Multi-AZ deployment is NOT enabled. Consider for production workloads''),
       timestamp = None, region = None \<rparr>"

definition scanRDS :: "js_error + RDSInstanceInfo list \<Rightarrow> SecurityFinding list" where
  "scanRDS collected =
     (case collected of
        Inr instances \<Rightarrow>
          concat (map (\<lambda>db. [checkPublicAccessibility db, checkEncryption_rds db,
                              checkBackupEnabled db, checkMultiAZ db]) instances)
      | Inl e \<Rightarrow> [scanner_error RDS ''RDS-SCANNER'' ''RDS Scan'' ''Error scanning RDS: '' e])"

section \<open>Compute and firewalls (scanners/ec2Scanner.ts)\<close>

definition sg_label :: "SecurityGroupInfo \<Rightarrow> string" where
  "sg_label sg = groupName sg @ '' ('' @ groupId sg @ '')''"

definition checkSSHExposure :: "SecurityGroupInfo \<Rightarrow> SecurityFinding" where
  "checkSSHExposure sg =
     \<lparr> resourceType = SECURITY_GROUP, resourceId = sg_label sg,
       checkName = ''SSH Port Exposure (22)'',
       status = (if hasOpenSSH sg then FAIL else PASS),
       severity = (if hasOpenSSH sg then HIGH else LOW),
       message = (if hasOpenSSH sg
                  then ''SSH port 22 is open to the world (0.0.0.0/0). Restrict to specific IPs''
                  else ''SSH port 22 is not exposed to the world''),
       timestamp = None, region = None \<rparr>"

definition checkRDPExposure :: "SecurityGroupInfo \<Rightarrow> SecurityFinding" where
  "checkRDPExposure sg =
     \<lparr> resourceType = SECURITY_GROUP, resourceId = sg_label sg,
       checkName = ''RDP Port Exposure (3389)'',
       status = (if hasOpenRDP sg then FAIL else PASS),
       severity = (if hasOpenRDP sg then HIGH else LOW),
       message = (if hasOpenRDP sg
                  then ''RDP port 3389 is open to the world (0.0.0.0/0). Restrict to specific IPs''
                  else ''RDP port 3389 is not exposed to the world''),
       timestamp = None, region = None \<rparr>"

definition checkOpenToWorld :: "SecurityGroupInfo \<Rightarrow> SecurityFinding" where
  "checkOpenToWorld sg =
     (let openRules = filter isOpenToWorld_flag (inboundRules sg) in
      \<lparr> resourceType = SECURITY_GROUP, resourceId = sg_label sg,
        checkName = ''Unrestricted Inbound Access'',
        status = (if hasOpenToWorld sg then FAIL else PASS),
        severity = (if hasOpenToWorld sg then MEDIUM else LOW),
        message = (if hasOpenToWorld sg
                   then string_of_nat (length openRules)
                          @ '' inbound rule(s) allow traffic from 0.0.0.0/0''
                   else ''No inbound rules allow unrestricted access''),
        timestamp = None, region = None \<rparr>)"

text \<open>A missing \<open>publicIp\<close> is rendered \<open>undefined\<close> by the template literal.\<close>

definition checkPublicIPExposure :: "EC2InstanceInfo \<Rightarrow> SecurityFinding" where
  "checkPublicIPExposure inst =
     \<lparr> resourceType = EC2,
       resourceId = instance_name inst @ '' ('' @ instanceId inst @ '')'',
       checkName = ''Public IP Exposure'',
       status = (if hasPublicIp inst then FAIL else PASS),
       severity = (if hasPublicIp inst then MEDIUM else LOW),
       message = (if hasPublicIp inst
                  then ''Instance has a public IP: ''
                         @ (case publicIp inst of None \<Rightarrow> ''undefined'' | Some ip \<Rightarrow> ip)
                         @ ''. Ensure this is intentional''
                  else ''Instance does not have a public IP''),
       timestamp = None, region = None \<rparr>"

definition scanEC2 ::
    "js_error + (EC2InstanceInfo list \<times> SecurityGroupInfo list) \<Rightarrow> SecurityFinding list" where
  "scanEC2 collected =
     (case collected of
        Inr (instances, sgs) \<Rightarrow>
          concat (map (\<lambda>sg. [checkSSHExposure sg, checkRDPExposure sg, checkOpenToWorld sg]) sgs)
          @ map checkPublicIPExposure
              (filter (\<lambda>inst. state inst = ''running'' \<or> state inst = ''stopped'') instances)
      | Inl e \<Rightarrow> [scanner_error EC2 ''EC2-SCANNER'' ''EC2 Scan'' ''Error scanning EC2: '' e])"

section \<open>Date.prototype.toISOString\<close>

text \<open>
  The storage layer serialises dates with the runtime's \<open>toISOString\<close>. It is modelled
  after the language standard: a time value is a number of milliseconds since the epoch,
  \<open>Day\<close>, \<open>DayFromYear\<close>, \<open>YearFromTime\<close>, \<open>MonthFromTime\<close> and the others are
  the standard's abstract operations, and the year is written with four digits when it
  lies in 0..9999 and with a sign and six digits otherwise. \<open>DateObj t\<close> stands for a
  valid date; the invalid date (whose time value is NaN) is not a value of the model.
\<close>

fun pad_digits :: "nat \<Rightarrow> int \<Rightarrow> string" where
  "pad_digits 0 n = []"
| "pad_digits (Suc k) n = pad_digits k (n div 10) @ [digit_char (nat (n mod 10))]"

definition msPerDay :: int where
  "msPerDay = 86400000"

definition Day :: "int \<Rightarrow> int" where
  "Day t = t div msPerDay"

definition DayFromYear :: "int \<Rightarrow> int" where
  "DayFromYear y =
     365 * (y - 1970) + (y - 1969) div 4 - (y - 1901) div 100 + (y - 1601) div 400"

text \<open>
  The standard asks for the largest year whose first day is not after the given day. It
  is computed from an estimate that is off by at most one.
\<close>

definition YearFromDay :: "int \<Rightarrow> int" where
  "YearFromDay d =
     (let y = 1970 + (400 * d) div 146097 in
      if DayFromYear (y + 1) \<le> d then y + 1
      else if DayFromYear y \<le> d then y
      else y - 1)"

definition InLeapYear :: "int \<Rightarrow> int" where
  "InLeapYear y = (if (y mod 4 = 0 \<and> y mod 100 \<noteq> 0) \<or> y mod 400 = 0 then 1 else 0)"

definition MonthFromDay :: "int \<Rightarrow> int \<Rightarrow> int" where
  "MonthFromDay dwy leap =
     (if dwy < 31 then 0
      else if dwy < 59 + leap then 1
      else if dwy < 90 + leap then 2
      else if dwy < 120 + leap then 3
      else if dwy < 151 + leap then 4
      else if dwy < 181 + leap then 5
      else if dwy < 212 + leap then 6
      else if dwy < 243 + leap then 7
      else if dwy < 273 + leap then 8
      else if dwy < 304 + leap then 9
      else if dwy < 334 + leap then 10
      else 11)"

definition DateFromDay :: "int \<Rightarrow> int \<Rightarrow> int" where
  "DateFromDay dwy leap =
     (let m = MonthFromDay dwy leap in
      if m = 0 then dwy + 1
      else if m = 1 then dwy - 30
      else if m = 2 then dwy - 58 - leap
      else if m = 3 then dwy - 89 - leap
      else if m = 4 then dwy - 119 - leap
      else if m = 5 then dwy - 150 - leap
      else if m = 6 then dwy - 180 - leap
      else if m = 7 then dwy - 211 - leap
      else if m = 8 then dwy - 242 - leap
      else if m = 9 then dwy - 272 - leap
      else if m = 10 then dwy - 303 - leap
      else dwy - 333 - leap)"

definition YearFromTime :: "int \<Rightarrow> int" where
  "YearFromTime t = YearFromDay (Day t)"

definition DayWithinYear :: "int \<Rightarrow> int" where
  "DayWithinYear t = Day t - DayFromYear (YearFromTime t)"

definition MonthFromTime :: "int \<Rightarrow> int" where
  "MonthFromTime t = MonthFromDay (DayWithinYear t) (InLeapYear (YearFromTime t))"

definition DateFromTime :: "int \<Rightarrow> int" where
  "DateFromTime t = DateFromDay (DayWithinYear t) (InLeapYear (YearFromTime t))"

definition HourFromTime :: "int \<Rightarrow> int" where
  "HourFromTime t = t div 3600000 mod 24"

definition MinFromTime :: "int \<Rightarrow> int" where
  "MinFromTime t = t div 60000 mod 60"

definition SecFromTime :: "int \<Rightarrow> int" where
  "SecFromTime t = t div 1000 mod 60"

definition msFromTime :: "int \<Rightarrow> int" where
  "msFromTime t = t mod 1000"

definition year_string :: "int \<Rightarrow> string" where
  "year_string y =
     (if 0 \<le> y \<and> y \<le> 9999 then pad_digits 4 y
      else (if y < 0 then CHR ''-'' else CHR ''+'') # pad_digits 6 \<bar>y\<bar>)"

definition toISOString :: "int \<Rightarrow> string" where
  "toISOString t =
     year_string (YearFromTime t) @ ''-'' @ pad_digits 2 (MonthFromTime t + 1)
       @ ''-'' @ pad_digits 2 (DateFromTime t)
       @ ''T'' @ pad_digits 2 (HourFromTime t)
       @ '':'' @ pad_digits 2 (MinFromTime t)
       @ '':'' @ pad_digits 2 (SecFromTime t)
       @ ''.'' @ pad_digits 3 (msFromTime t) @ ''Z''"

text \<open>The numbers that \<open>toISOString\<close> prints, in the order it prints them.\<close>

definition iso_fields :: "int \<Rightarrow> int list" where
  "iso_fields t =
     [YearFromTime t, MonthFromTime t + 1, DateFromTime t, HourFromTime t, MinFromTime t,
      SecFromTime t, msFromTime t]"

text \<open>The time values of the dates JavaScript can represent.\<close>

definition valid_time :: "int \<Rightarrow> bool" where
  "valid_time t = (\<bar>t\<bar> \<le> 8640000000000000)"

text \<open>The time values whose year has four digits: 0000-01-01 up to 9999-12-31.\<close>

definition four_digit_year :: "int \<Rightarrow> bool" where
  "four_digit_year t = (-62167219200000 \<le> t \<and> t < 253402300800000)"

section \<open>Result store (storage/dynamodb.ts)\<close>

text \<open>\<open>x instanceof Date ? x.toISOString() : x\<close>\<close>

definition iso_text :: "datetime \<Rightarrow> string" where
  "iso_text x = (case x of DateObj t \<Rightarrow> toISOString t | DateStr s \<Rightarrow> s)"

definition serialize_date :: "datetime \<Rightarrow> datetime" where
  "serialize_date x = DateStr (iso_text x)"

text \<open>
  The stored item: the scan's own fields and the three attributes that
  \<open>prepareForStorage\<close> adds. \<open>item_resourceId\<close> is the attribute \<open>resourceId\<close>, the
  table's sort key.
\<close>

record StorageItem = ScanResult +
  recordType :: string
  createdAt :: string
  item_resourceId :: string

definition prepareForStorage :: "ScanResult \<Rightarrow> StorageItem" where
  "prepareForStorage scanResult =
     \<lparr> scanId = scanId scanResult,
       summary = (summary scanResult)
         \<lparr> scanTime := serialize_date (scanTime (summary scanResult)) \<rparr>,
       findings = map (\<lambda>f. f \<lparr> timestamp := map_option serialize_date (timestamp f) \<rparr>)
                    (findings scanResult),
       startTime = serialize_date (startTime scanResult),
       endTime = map_option serialize_date (endTime scanResult),
       scan_status = scan_status scanResult,
       recordType = ''SCAN'',
       createdAt = iso_text (startTime scanResult),
       item_resourceId = ''METADATA'' \<rparr>"

text \<open>
  The table service. \<open>table\<close> holds the items in the order they were written,
  \<open>requests\<close> every command the client has sent. A write replaces the item with the
  same primary key (partition key \<open>scanId\<close>, sort key \<open>resourceId\<close>). Each operation
  takes the failure the service answers with, if any; a failed command changes nothing.
  Marshalling an item and unmarshalling it again is taken to give the item back.
\<close>

datatype ddb_command =
    PutItemCommand StorageItem
  | GetItemCommand string string
  | QueryCommand string

record DynamoDB =
  table :: "StorageItem list"
  requests :: "ddb_command list"

definition same_key :: "StorageItem \<Rightarrow> StorageItem \<Rightarrow> bool" where
  "same_key a b = (scanId a = scanId b \<and> item_resourceId a = item_resourceId b)"

definition send_PutItem ::
    "js_error option \<Rightarrow> StorageItem \<Rightarrow> DynamoDB \<Rightarrow> (js_error + unit) \<times> DynamoDB" where
  "send_PutItem fault item db =
     (let db' = db \<lparr> requests := requests db @ [PutItemCommand item] \<rparr> in
      case fault of
        Some e \<Rightarrow> (Inl e, db')
      | None \<Rightarrow>
          (Inr (), db' \<lparr> table := filter (\<lambda>i. \<not> same_key i item) (table db) @ [item] \<rparr>))"

definition send_GetItem ::
    "js_error option \<Rightarrow> string \<Rightarrow> string \<Rightarrow> DynamoDB
      \<Rightarrow> (js_error + StorageItem option) \<times> DynamoDB" where
  "send_GetItem fault pk sk db =
     (let db' = db \<lparr> requests := requests db @ [GetItemCommand pk sk] \<rparr> in
      case fault of
        Some e \<Rightarrow> (Inl e, db')
      | None \<Rightarrow> (Inr (find (\<lambda>i. scanId i = pk \<and> item_resourceId i = sk) (table db)), db'))"

text \<open>
  Modelled from the spec: the key schema of the index \<open>ScanHistoryIndex\<close> is not part
  of the sources. The spec gives the store "a secondary sort dimension for latest queries
  keyed by creation time descending" with "ties broken by insertion order", and
  \<open>prepareForStorage\<close> sets \<open>recordType\<close> and \<open>createdAt\<close> as "GSI keys". The index
  is therefore the partition \<open>recordType\<close> sorted by the string \<open>createdAt\<close> (strings
  compare byte by byte), items with equal keys staying in the order they were written;
  the query reads it backwards (\<open>ScanIndexForward: false\<close>) and stops after one item
  (\<open>Limit: 1\<close>).
\<close>

definition index_query :: "string \<Rightarrow> StorageItem list \<Rightarrow> StorageItem list" where
  "index_query pk items =
     take 1 (rev (sort_key createdAt (filter (\<lambda>i. recordType i = pk) items)))"

definition send_Query ::
    "js_error option \<Rightarrow> string \<Rightarrow> DynamoDB \<Rightarrow> (js_error + StorageItem list) \<times> DynamoDB" where
  "send_Query fault pk db =
     (let db' = db \<lparr> requests := requests db @ [QueryCommand pk] \<rparr> in
      case fault of
        Some e \<Rightarrow> (Inl e, db')
      | None \<Rightarrow> (Inr (index_query pk (table db)), db'))"

text \<open>
  \<open>saveScanResult\<close> is an async function whose body is one try block: the first
  component of its result is how its promise settles, and it never rejects.
\<close>

definition saveScanResult ::
    "js_error option \<Rightarrow> ScanResult \<Rightarrow> DynamoDB \<Rightarrow> (js_error + unit) \<times> DynamoDB" where
  "saveScanResult fault scanResult db =
     (case send_PutItem fault (prepareForStorage scanResult) db of
        (Inr u, db') \<Rightarrow> (Inr (), db')
      | (Inl err, db') \<Rightarrow> (Inr (), db'))"

text \<open>
  The two readers return the unmarshalled item as it is, typed as a scan result by a
  cast: \<open>None\<close> is JavaScript's \<open>null\<close>.
\<close>

definition getLatestScanResult ::
    "js_error option \<Rightarrow> DynamoDB \<Rightarrow> StorageItem option \<times> DynamoDB" where
  "getLatestScanResult fault db =
     (case send_Query fault ''SCAN'' db of
        (Inr items, db') \<Rightarrow> (case items of [] \<Rightarrow> (None, db') | item # rest \<Rightarrow> (Some item, db'))
      | (Inl err, db') \<Rightarrow> (None, db'))"

definition getScanResult ::
    "js_error option \<Rightarrow> string \<Rightarrow> DynamoDB \<Rightarrow> StorageItem option \<times> DynamoDB" where
  "getScanResult fault sid db =
     (case send_GetItem fault sid ''METADATA'' db of
        (Inr None, db') \<Rightarrow> (None, db')
      | (Inr (Some item), db') \<Rightarrow> (Some item, db')
      | (Inl err, db') \<Rightarrow> (None, db'))"

definition empty_db :: DynamoDB where
  "empty_db = \<lparr> table = [], requests = [] \<rparr>"

text \<open>The store after the given scans have been saved one after the other, each successfully.\<close>

definition persisted :: "ScanResult list \<Rightarrow> DynamoDB" where
  "persisted rs = foldl (\<lambda>db r. snd (saveScanResult None r db)) empty_db rs"

section \<open>Scan orchestrator (runFullScan)\<close>

text \<open>
  What one run of \<open>runFullScan\<close> meets: the id it generates, how each collector
  settles, the readings of the clock (\<open>new Date()\<close>) in the order they are taken, an
  exception raised inside the try block once the scanners have settled (the code has no
  statement there that throws by itself; the parameter stands for a fault of the runtime),
  and the failure the table service answers the write with.
\<close>

record ScanEnv =
  new_scan_id :: string
  s3_collect :: "js_error + S3BucketInfo list"
  ec2_collect :: "js_error + (EC2InstanceInfo list \<times> SecurityGroupInfo list)"
  iam_collect :: "js_error + (IAMUserInfo list \<times> IAMAccountSummary)"
  rds_collect :: "js_error + RDSInstanceInfo list"
  clock_start :: int
  clock_stamp :: int
  clock_summary :: int
  clock_end :: int
  aggregation_fault :: "js_error option"
  put_fault :: "js_error option"

text \<open>\<open>promise.catch(err => [])\<close>\<close>

definition catch_empty :: "js_error + SecurityFinding list \<Rightarrow> SecurityFinding list" where
  "catch_empty promise = (case promise of Inl err \<Rightarrow> [] | Inr fs \<Rightarrow> fs)"

text \<open>\<open>allFindings.forEach(finding => { finding.timestamp = timestamp })\<close>\<close>

definition stamp :: "int \<Rightarrow> SecurityFinding list \<Rightarrow> SecurityFinding list" where
  "stamp now fs = map (\<lambda>finding. finding \<lparr> timestamp := Some (DateObj now) \<rparr>) fs"

definition initial_scan :: "ScanEnv \<Rightarrow> ScanResult" where
  "initial_scan env =
     \<lparr> scanId = new_scan_id env,
       summary = \<lparr> totalResources = 0, passed = 0, failed = 0, errors = 0, highSeverity = 0,
                   criticalSeverity = 0, scanTime = DateObj (clock_start env) \<rparr>,
       findings = [],
       startTime = DateObj (clock_start env),
       endTime = None,
       scan_status = running \<rparr>"

text \<open>
  The try block. Every scanner is an async function that catches its own errors, so its
  promise is fulfilled (\<open>Inr\<close>) before \<open>catch\<close> sees it. The scan result is assigned
  only after the summary has been computed, so a fault leaves it as it was.
\<close>

definition scan_body :: "ScanEnv \<Rightarrow> ScanResult \<Rightarrow> js_error + ScanResult" where
  "scan_body env scanResult =
     (let s3Findings = catch_empty (Inr (scanS3Buckets (s3_collect env)));
          ec2Findings = catch_empty (Inr (scanEC2 (ec2_collect env)));
          iamFindings = catch_empty (Inr (scanIAM (iam_collect env)));
          rdsFindings = catch_empty (Inr (scanRDS (rds_collect env)))
      in case aggregation_fault env of
           Some e \<Rightarrow> Inl e
         | None \<Rightarrow>
             (let allFindings =
                    stamp (clock_stamp env) (s3Findings @ ec2Findings @ iamFindings @ rdsFindings);
                  summ = calculateSummary (clock_summary env) allFindings
              in Inr (scanResult \<lparr> findings := allFindings, summary := summ,
                       endTime := Some (DateObj (clock_end env)),
                       scan_status := completed \<rparr>)))"

text \<open>
  The result is how the promise of \<open>runFullScan\<close> settles, and the table service
  afterwards. \<open>saveScanResult\<close> is called without \<open>await\<close>: its promise is dropped.
\<close>

definition runFullScan :: "ScanEnv \<Rightarrow> DynamoDB \<Rightarrow> (js_error + ScanResult) \<times> DynamoDB" where
  "runFullScan env db =
     (let scanResult =
            (case scan_body env (initial_scan env) of
               Inr done \<Rightarrow> done
             | Inl error \<Rightarrow>
                 (initial_scan env) \<lparr> scan_status := failed_scan,
                                      endTime := Some (DateObj (clock_end env)) \<rparr>);
          (dropped, db') = saveScanResult (put_fault env) scanResult db
      in (Inr scanResult, db'))"

section \<open>Sample inputs\<close>

text \<open>Concrete inputs on which the theorems below are instantiated.\<close>

definition example_permissions :: "IpPermission list" where
  "example_permissions =
     [\<lparr> IpProtocol = Some ''-1'', FromPort = None, ToPort = None,
         IpRanges = Some [Some ''10.0.0.0/8''], Ipv6Ranges = Some [Some ''::/0''] \<rparr>,
      \<lparr> IpProtocol = Some ''tcp'', FromPort = Some 22, ToPort = Some 22,
         IpRanges = Some [Some ''0.0.0.0/0'', Some ''0.0.0.0/00''], Ipv6Ranges = None \<rparr>]"

definition blocked_config :: PublicAccessBlockConfiguration where
  "blocked_config =
     \<lparr> BlockPublicAcls = Some True, BlockPublicPolicy = Some True, IgnorePublicAcls = Some True,
       RestrictPublicBuckets = Some True \<rparr>"

definition example_bucket :: S3BucketInfo where
  "example_bucket =
     \<lparr> bucket_name = ''logs'', bucket_region = ''eu-north-1'', creationDate = None,
       publicAccess = nothing_blocked,
       encryption = \<lparr> enc_enabled = True, enc_type = Some ''AES256'' \<rparr>,
       versioning = \<lparr> ver_enabled = False, mfaDelete = False \<rparr> \<rparr>"

definition example_user :: IAMUserInfo where
  "example_user =
     \<lparr> userName = ''alice'', userId = ''AIDA1'', arn = ''arn:aws:iam::1:user/alice'',
       hasMFA = False, hasConsoleAccess = True,
       attachedPolicies = [''arn:aws:iam::aws:policy/AdministratorAccess''],
       hasAdminAccess = True \<rparr>"

definition example_account :: IAMAccountSummary where
  "example_account =
     \<lparr> users = 1, groups = 0, roles = 0, policies = 0, mfaDevices = 0,
       accountMFAEnabled = False \<rparr>"

definition example_error :: js_error where
  "example_error = \<lparr> err_name = ''AccessDenied'', err_message = ''not authorized'' \<rparr>"

definition example_env :: ScanEnv where
  "example_env =
     \<lparr> new_scan_id = ''scan-1730628000000-abc1234'',
       s3_collect = Inr [example_bucket],
       ec2_collect = Inl example_error,
       iam_collect = Inr ([example_user], example_account),
       rds_collect = Inr [],
       clock_start = 1730628000000,
       clock_stamp = 1730628000123,
       clock_summary = 1730628000124,
       clock_end = 1730628000125,
       aggregation_fault = None,
       put_fault = None \<rparr>"


definition epoch_scan :: ScanResult where
  "epoch_scan =
     \<lparr> scanId = ''scan-0-aaaaaaa'',
       summary = \<lparr> totalResources = 0, passed = 0, failed = 0, errors = 0, highSeverity = 0,
                   criticalSeverity = 0, scanTime = DateObj 0 \<rparr>,
       findings = [],
       startTime = DateObj 0,
       endTime = Some (DateObj 1),
       scan_status = completed \<rparr>"

definition later_scan :: ScanResult where
  "later_scan =
     epoch_scan \<lparr> scanId := ''scan-1730628000000-abc1234'', startTime := DateObj 1730628000000,
                  scan_status := failed_scan \<rparr>"

definition far_scan :: ScanResult where
  "far_scan =
     epoch_scan \<lparr> scanId := ''scan-253402300800000-zzzzzzz'',
                  startTime := DateObj 253402300800000 \<rparr>"

definition example_group :: SecurityGroup where
  "example_group =
     \<lparr> GroupId = Some ''sg-1'', GroupName = Some ''web'', Description = None, VpcId = None,
       IpPermissions = Some example_permissions \<rparr>"

section \<open>Theorems\<close>

subsection \<open>Summary counts\<close>

lemma count_where_Cons:
  "count_where p (x # xs) = (if p x then Suc (count_where p xs) else count_where p xs)"
  by (simp add: count_where_def)

lemma count_where_Nil: "count_where p [] = 0"
  by (simp add: count_where_def)

lemma status_partition:
  "count_where (\<lambda>f. status f = PASS) fs + count_where (\<lambda>f. status f = FAIL) fs
     + count_where (\<lambda>f. status f = ERROR) fs = length fs"
proof (induction fs)
  case Nil
  show ?case by (simp add: count_where_Nil)
next
  case (Cons f fs)
  then show ?case by (cases "status f") (simp_all add: count_where_Cons)
qed

text \<open>
  C1: for every list of findings the computed summary satisfies
  passed + failed + errors = totalResources, where totalResources is the number of
  findings, passed, failed and errors count the findings of status PASS, FAIL and ERROR,
  highSeverity counts the findings with status FAIL and severity HIGH, and
  criticalSeverity those with status FAIL and severity CRITICAL.
\<close>

theorem calculateSummary_invariant:
  "passed (calculateSummary now fs) + failed (calculateSummary now fs)
      + errors (calculateSummary now fs) = totalResources (calculateSummary now fs)
   \<and> totalResources (calculateSummary now fs) = length fs
   \<and> passed (calculateSummary now fs) = length (filter (\<lambda>f. status f = PASS) fs)
   \<and> failed (calculateSummary now fs) = length (filter (\<lambda>f. status f = FAIL) fs)
   \<and> errors (calculateSummary now fs) = length (filter (\<lambda>f. status f = ERROR) fs)
   \<and> highSeverity (calculateSummary now fs)
        = length (filter (\<lambda>f. status f = FAIL \<and> severity f = HIGH) fs)
   \<and> criticalSeverity (calculateSummary now fs)
        = length (filter (\<lambda>f. status f = FAIL \<and> severity f = CRITICAL) fs)"
  using status_partition [of fs] by (simp add: calculateSummary_def count_where_def)

subsection \<open>Firewall rules\<close>

lemma rule_of_flag:
  "isOpenToWorld_flag (rule_of permission cidr) = isOpenToWorld (source (rule_of permission cidr))"
  by (simp add: rule_of_def)

lemma parsed_rule_flag:
  "rule \<in> set (parseInboundRules permissions) \<Longrightarrow>
     isOpenToWorld_flag rule = isOpenToWorld (source rule)"
  by (induction permissions) (auto simp add: rule_of_flag)

text \<open>
  C4: every rule that the parser produces is marked open to the world exactly when its
  source is the string 0.0.0.0/0 or the string ::/0; a rule whose source is 10.0.0.0/8 is
  never marked, whatever the permission's ports and protocol.
\<close>

theorem open_to_world_iff_wildcard_source:
  "(\<forall>rule \<in> set (parseInboundRules permissions).
      isOpenToWorld_flag rule = (source rule = ''0.0.0.0/0'' \<or> source rule = ''::/0''))
   \<and> (\<forall>rule \<in> set (parseInboundRules permissions).
      source rule = ''10.0.0.0/8'' \<longrightarrow> \<not> isOpenToWorld_flag rule)"
  by (auto simp add: parsed_rule_flag isOpenToWorld_def)

theorem open_to_world_iff_wildcard_source_witness:
  "map isOpenToWorld_flag (parseInboundRules example_permissions) = [False, True, True, False]
   \<and> map source (parseInboundRules example_permissions)
        = [''10.0.0.0/8'', ''::/0'', ''0.0.0.0/0'', ''0.0.0.0/00'']"
  using open_to_world_iff_wildcard_source [of example_permissions]
  by (simp add: example_permissions_def rule_of_def or_list_def or_string_def isOpenToWorld_def)

lemma rule_opens_port_iff:
  "rule_opens_port port rule =
     (isOpenToWorld_flag rule \<and>
      (protocol rule = ''-1'' \<or>
       (case fromPort rule of None \<Rightarrow> 0 | Some lo \<Rightarrow> lo) \<le> port
         \<and> port \<le> (case toPort rule of None \<Rightarrow> 65535 | Some hi \<Rightarrow> hi)))"
  by (simp add: rule_opens_port_def nullish_def)

text \<open>
  C5: a port is reported open to the world exactly when some rule marked open to the
  world has protocol -1, or has the port between its bounds, a missing lower bound counting
  as 0 and a missing upper bound as 65535. A marked rule with protocol -1 therefore opens
  every port, 22 and 3389 included. The two flags of a security group record,
  \<open>hasOpenSSH\<close> and \<open>hasOpenRDP\<close>, are this report for the ports 22 and 3389 on
  the group's parsed rules.
\<close>

theorem port_open_to_world_iff:
  "hasPortOpenToWorld rules port =
     (\<exists>rule \<in> set rules. isOpenToWorld_flag rule \<and>
        (protocol rule = ''-1'' \<or>
         (case fromPort rule of None \<Rightarrow> 0 | Some lo \<Rightarrow> lo) \<le> port
           \<and> port \<le> (case toPort rule of None \<Rightarrow> 65535 | Some hi \<Rightarrow> hi)))
   \<and> (rule \<in> set rules \<and> isOpenToWorld_flag rule \<and> protocol rule = ''-1''
        \<longrightarrow> hasPortOpenToWorld rules port \<and> hasPortOpenToWorld rules 22
            \<and> hasPortOpenToWorld rules 3389)
   \<and> (securityGroupInfo sg = Some info
        \<longrightarrow> inboundRules info = parseInboundRules (or_list (IpPermissions sg))
            \<and> hasOpenSSH info = hasPortOpenToWorld (inboundRules info) 22
            \<and> hasOpenRDP info = hasPortOpenToWorld (inboundRules info) 3389)"
proof -
  have iff: "hasPortOpenToWorld rules p =
     (\<exists>rule \<in> set rules. isOpenToWorld_flag rule \<and>
        (protocol rule = ''-1'' \<or>
         (case fromPort rule of None \<Rightarrow> 0 | Some lo \<Rightarrow> lo) \<le> p
           \<and> p \<le> (case toPort rule of None \<Rightarrow> 65535 | Some hi \<Rightarrow> hi)))" for p
    by (induction rules) (auto simp add: rule_opens_port_iff)
  have every: "rule \<in> set rules \<and> isOpenToWorld_flag rule \<and> protocol rule = ''-1''
        \<longrightarrow> hasPortOpenToWorld rules port \<and> hasPortOpenToWorld rules 22
            \<and> hasPortOpenToWorld rules 3389"
    unfolding iff by blast
  have info: "securityGroupInfo sg = Some info
        \<longrightarrow> inboundRules info = parseInboundRules (or_list (IpPermissions sg))
            \<and> hasOpenSSH info = hasPortOpenToWorld (inboundRules info) 22
            \<and> hasOpenRDP info = hasPortOpenToWorld (inboundRules info) 3389"
    by (auto simp add: securityGroupInfo_def Let_def split: option.splits if_splits)
  show ?thesis
    using iff [of port] every info by blast
qed

theorem port_open_to_world_iff_witness:
  "\<lparr> protocol = ''-1'', fromPort = None, toPort = None, source = ''::/0'',
      isOpenToWorld_flag = True \<rparr> \<in> set (parseInboundRules example_permissions)
   \<and> hasPortOpenToWorld (parseInboundRules example_permissions) 443
   \<and> hasPortOpenToWorld (parseInboundRules example_permissions) 22
   \<and> hasPortOpenToWorld (parseInboundRules example_permissions) 3389
   \<and> map hasOpenSSH (case securityGroupInfo example_group of None \<Rightarrow> [] | Some i \<Rightarrow> [i])
       = [True]
   \<and> map hasOpenRDP (case securityGroupInfo example_group of None \<Rightarrow> [] | Some i \<Rightarrow> [i])
       = [True]
   \<and> hasPortOpenToWorld (parseInboundRules (drop 1 example_permissions)) 22
   \<and> \<not> hasPortOpenToWorld (parseInboundRules (drop 1 example_permissions)) 3389"
proof -
  let ?rule = "\<lparr> protocol = ''-1'', fromPort = None, toPort = None, source = ''::/0'',
      isOpenToWorld_flag = True \<rparr>"
  have rules: "parseInboundRules example_permissions =
      [\<lparr> protocol = ''-1'', fromPort = None, toPort = None, source = ''10.0.0.0/8'',
          isOpenToWorld_flag = False \<rparr>,
       ?rule,
       \<lparr> protocol = ''tcp'', fromPort = Some 22, toPort = Some 22, source = ''0.0.0.0/0'',
          isOpenToWorld_flag = True \<rparr>,
       \<lparr> protocol = ''tcp'', fromPort = Some 22, toPort = Some 22, source = ''0.0.0.0/00'',
          isOpenToWorld_flag = False \<rparr>]"
    by (simp add: example_permissions_def rule_of_def or_list_def or_string_def isOpenToWorld_def)
  have mem: "?rule \<in> set (parseInboundRules example_permissions)"
    unfolding rules by simp
  have "hasPortOpenToWorld (parseInboundRules example_permissions) 443
      \<and> hasPortOpenToWorld (parseInboundRules example_permissions) 22
      \<and> hasPortOpenToWorld (parseInboundRules example_permissions) 3389"
    by (rule port_open_to_world_iff [where rules = "parseInboundRules example_permissions"
          and port = 443 and rule = ?rule and sg = example_group
          and info = "the (securityGroupInfo example_group)",
          THEN conjunct2, THEN conjunct1, THEN mp])
      (simp add: mem)
  moreover have "securityGroupInfo example_group \<noteq> None"
    by (simp add: example_group_def securityGroupInfo_def Let_def)
  moreover have "hasPortOpenToWorld (parseInboundRules (drop 1 example_permissions)) 22
      \<and> \<not> hasPortOpenToWorld (parseInboundRules (drop 1 example_permissions)) 3389"
    by (simp add: example_permissions_def rule_of_def or_list_def or_string_def isOpenToWorld_def
        rule_opens_port_def nullish_def)
  ultimately show ?thesis
    using mem by (auto simp add: example_group_def securityGroupInfo_def Let_def or_list_def)
qed

subsection \<open>Public access of buckets\<close>

lemma getPublicAccessBlock_fully:
  "isFullyBlocked (getPublicAccessBlock response) =
     (blockPublicAcls (getPublicAccessBlock response)
      \<and> blockPublicPolicy (getPublicAccessBlock response)
      \<and> ignorePublicAcls (getPublicAccessBlock response)
      \<and> restrictPublicBuckets (getPublicAccessBlock response))"
  by (cases response) (simp_all add: getPublicAccessBlock_def nothing_blocked_def Let_def)

text \<open>
  C9: for a bucket record whose public-access part comes from the collector, the
  public-access check gives PASS with severity LOW exactly when the four flags of that
  part are all true, and FAIL with severity HIGH when one of them is false. A flag of the
  record is true only if the provider's configuration has it true; a missing
  configuration, a missing flag and a failed lookup all count as false.
\<close>

theorem public_access_check:
  "((status (checkPublicAccess (bucket \<lparr> publicAccess := getPublicAccessBlock response \<rparr>)) = PASS
      \<and> severity (checkPublicAccess (bucket \<lparr> publicAccess := getPublicAccessBlock response \<rparr>)) = LOW)
     = (blockPublicAcls (getPublicAccessBlock response)
        \<and> blockPublicPolicy (getPublicAccessBlock response)
        \<and> ignorePublicAcls (getPublicAccessBlock response)
        \<and> restrictPublicBuckets (getPublicAccessBlock response)))
   \<and> (\<not> (blockPublicAcls (getPublicAccessBlock response)
        \<and> blockPublicPolicy (getPublicAccessBlock response)
        \<and> ignorePublicAcls (getPublicAccessBlock response)
        \<and> restrictPublicBuckets (getPublicAccessBlock response))
      \<longrightarrow> status (checkPublicAccess (bucket \<lparr> publicAccess := getPublicAccessBlock response \<rparr>)) = FAIL
          \<and> severity (checkPublicAccess (bucket \<lparr> publicAccess := getPublicAccessBlock response \<rparr>)) = HIGH)
   \<and> (case response of
         Inr (Some config) \<Rightarrow>
           blockPublicAcls (getPublicAccessBlock response) = (BlockPublicAcls config = Some True)
           \<and> blockPublicPolicy (getPublicAccessBlock response) = (BlockPublicPolicy config = Some True)
           \<and> ignorePublicAcls (getPublicAccessBlock response) = (IgnorePublicAcls config = Some True)
           \<and> restrictPublicBuckets (getPublicAccessBlock response)
               = (RestrictPublicBuckets config = Some True)
       | _ \<Rightarrow> \<not> blockPublicAcls (getPublicAccessBlock response)
           \<and> \<not> blockPublicPolicy (getPublicAccessBlock response)
           \<and> \<not> ignorePublicAcls (getPublicAccessBlock response)
           \<and> \<not> restrictPublicBuckets (getPublicAccessBlock response))"
proof -
  have verdict: "status (checkPublicAccess b) = (if isFullyBlocked (publicAccess b) then PASS else FAIL)"
    "severity (checkPublicAccess b) = (if isFullyBlocked (publicAccess b) then LOW else HIGH)" for b
    by (simp_all add: checkPublicAccess_def Let_def)
  have flags: "case response of
         Inr (Some config) \<Rightarrow>
           blockPublicAcls (getPublicAccessBlock response) = (BlockPublicAcls config = Some True)
           \<and> blockPublicPolicy (getPublicAccessBlock response) = (BlockPublicPolicy config = Some True)
           \<and> ignorePublicAcls (getPublicAccessBlock response) = (IgnorePublicAcls config = Some True)
           \<and> restrictPublicBuckets (getPublicAccessBlock response)
               = (RestrictPublicBuckets config = Some True)
       | _ \<Rightarrow> \<not> blockPublicAcls (getPublicAccessBlock response)
           \<and> \<not> blockPublicPolicy (getPublicAccessBlock response)
           \<and> \<not> ignorePublicAcls (getPublicAccessBlock response)
           \<and> \<not> restrictPublicBuckets (getPublicAccessBlock response)"
    by (auto simp add: getPublicAccessBlock_def nothing_blocked_def flag_or_false_def Let_def
        split: sum.splits option.splits)
  show ?thesis
    using flags getPublicAccessBlock_fully [of response] by (simp add: verdict)
qed

theorem public_access_check_witness:
  "status (checkPublicAccess
      (example_bucket \<lparr> publicAccess := getPublicAccessBlock (Inr (Some blocked_config)) \<rparr>)) = PASS
   \<and> severity (checkPublicAccess
      (example_bucket \<lparr> publicAccess := getPublicAccessBlock (Inr (Some blocked_config)) \<rparr>)) = LOW
   \<and> status (checkPublicAccess
      (example_bucket \<lparr> publicAccess := getPublicAccessBlock
        (Inr (Some (blocked_config \<lparr> IgnorePublicAcls := None \<rparr>))) \<rparr>)) = FAIL
   \<and> severity (checkPublicAccess
      (example_bucket \<lparr> publicAccess := getPublicAccessBlock
        (Inr (Some (blocked_config \<lparr> IgnorePublicAcls := None \<rparr>))) \<rparr>)) = HIGH"
  using public_access_check [where bucket = example_bucket and response = "Inr (Some blocked_config)"]
    public_access_check [where bucket = example_bucket
      and response = "Inr (Some (blocked_config \<lparr> IgnorePublicAcls := None \<rparr>))"]
  by (simp add: blocked_config_def)

subsection \<open>Severity of passing checks\<close>

lemma pass_low_s3:
  "status (checkPublicAccess b) = PASS \<longrightarrow> severity (checkPublicAccess b) = LOW"
  "status (checkEncryption_s3 b) = PASS \<longrightarrow> severity (checkEncryption_s3 b) = LOW"
  "status (checkVersioning b) = PASS \<longrightarrow> severity (checkVersioning b) = LOW"
  by (simp_all add: checkPublicAccess_def checkEncryption_s3_def checkVersioning_def Let_def)

lemma pass_low_iam:
  "status (checkMFAEnabled u) = PASS \<longrightarrow> severity (checkMFAEnabled u) = LOW"
  "status (checkAdminAccess u) = PASS \<longrightarrow> severity (checkAdminAccess u) = LOW"
  "status (checkRootMFA m) = PASS \<longrightarrow> severity (checkRootMFA m) = LOW"
  by (simp_all add: checkMFAEnabled_def checkAdminAccess_def checkRootMFA_def)

lemma pass_low_rds:
  "status (checkPublicAccessibility d) = PASS \<longrightarrow> severity (checkPublicAccessibility d) = LOW"
  "status (checkEncryption_rds d) = PASS \<longrightarrow> severity (checkEncryption_rds d) = LOW"
  "status (checkBackupEnabled d) = PASS \<longrightarrow> severity (checkBackupEnabled d) = LOW"
  "status (checkMultiAZ d) = PASS \<longrightarrow> severity (checkMultiAZ d) = LOW"
  by (simp_all add: checkPublicAccessibility_def checkEncryption_rds_def checkBackupEnabled_def
      checkMultiAZ_def)

lemma pass_low_ec2:
  "status (checkSSHExposure g) = PASS \<longrightarrow> severity (checkSSHExposure g) = LOW"
  "status (checkRDPExposure g) = PASS \<longrightarrow> severity (checkRDPExposure g) = LOW"
  "status (checkOpenToWorld g) = PASS \<longrightarrow> severity (checkOpenToWorld g) = LOW"
  "status (checkPublicIPExposure i) = PASS \<longrightarrow> severity (checkPublicIPExposure i) = LOW"
  by (simp_all add: checkSSHExposure_def checkRDPExposure_def checkOpenToWorld_def
      checkPublicIPExposure_def Let_def)

lemma scanner_error_status: "status (scanner_error rt rid cname intro e) = ERROR"
  by (simp add: scanner_error_def)

lemma pass_low_scanS3:
  "f \<in> set (scanS3Buckets c) \<Longrightarrow> status f = PASS \<longrightarrow> severity f = LOW"
  using pass_low_s3 by (cases c) (auto simp add: scanS3Buckets_def scanner_error_status)

lemma pass_low_scanIAM:
  "f \<in> set (scanIAM c) \<Longrightarrow> status f = PASS \<longrightarrow> severity f = LOW"
  using pass_low_iam by (cases c) (auto simp add: scanIAM_def scanner_error_status)

lemma pass_low_scanRDS:
  "f \<in> set (scanRDS c) \<Longrightarrow> status f = PASS \<longrightarrow> severity f = LOW"
  using pass_low_rds by (cases c) (auto simp add: scanRDS_def scanner_error_status)

lemma pass_low_scanEC2:
  "f \<in> set (scanEC2 c) \<Longrightarrow> status f = PASS \<longrightarrow> severity f = LOW"
  using pass_low_ec2 by (cases c) (auto simp add: scanEC2_def scanner_error_status)

text \<open>
  C10: a finding with status PASS has severity LOW, for each of the check functions and
  for everything the four scanners return.
\<close>

theorem passing_checks_are_low:
  "(status (checkPublicAccess b) = PASS \<longrightarrow> severity (checkPublicAccess b) = LOW)
   \<and> (status (checkEncryption_s3 b) = PASS \<longrightarrow> severity (checkEncryption_s3 b) = LOW)
   \<and> (status (checkVersioning b) = PASS \<longrightarrow> severity (checkVersioning b) = LOW)
   \<and> (status (checkMFAEnabled u) = PASS \<longrightarrow> severity (checkMFAEnabled u) = LOW)
   \<and> (status (checkAdminAccess u) = PASS \<longrightarrow> severity (checkAdminAccess u) = LOW)
   \<and> (status (checkRootMFA m) = PASS \<longrightarrow> severity (checkRootMFA m) = LOW)
   \<and> (status (checkPublicAccessibility d) = PASS \<longrightarrow> severity (checkPublicAccessibility d) = LOW)
   \<and> (status (checkEncryption_rds d) = PASS \<longrightarrow> severity (checkEncryption_rds d) = LOW)
   \<and> (status (checkBackupEnabled d) = PASS \<longrightarrow> severity (checkBackupEnabled d) = LOW)
   \<and> (status (checkMultiAZ d) = PASS \<longrightarrow> severity (checkMultiAZ d) = LOW)
   \<and> (status (checkSSHExposure g) = PASS \<longrightarrow> severity (checkSSHExposure g) = LOW)
   \<and> (status (checkRDPExposure g) = PASS \<longrightarrow> severity (checkRDPExposure g) = LOW)
   \<and> (status (checkOpenToWorld g) = PASS \<longrightarrow> severity (checkOpenToWorld g) = LOW)
   \<and> (status (checkPublicIPExposure i) = PASS \<longrightarrow> severity (checkPublicIPExposure i) = LOW)
   \<and> (\<forall>f \<in> set (scanS3Buckets cs3 @ scanEC2 cec2 @ scanIAM ciam @ scanRDS crds).
         status f = PASS \<longrightarrow> severity f = LOW)"
  using pass_low_scanS3 [of _ cs3] pass_low_scanEC2 [of _ cec2] pass_low_scanIAM [of _ ciam]
    pass_low_scanRDS [of _ crds]
  by (auto simp add: pass_low_s3 pass_low_iam pass_low_rds pass_low_ec2)

theorem passing_checks_are_low_witness:
  "status (checkEncryption_s3 example_bucket) = PASS
   \<and> severity (checkEncryption_s3 example_bucket) = LOW
   \<and> status (checkPublicAccess example_bucket) = FAIL"
  using passing_checks_are_low [where b = example_bucket]
  by (simp add: example_bucket_def checkEncryption_s3_def checkPublicAccess_def nothing_blocked_def)

subsection \<open>Scanners and orchestrator\<close>

lemma error_string_contains: "sublist (err_message e) (intro @ error_string e)"
proof -
  have "suffix (err_message e) (error_string e)"
    by (auto simp add: error_string_def intro!: suffix_appendI suffix_ConsI)
  then have "suffix (err_message e) (intro @ error_string e)"
    by (rule suffix_appendI)
  then show ?thesis by (rule suffix_imp_sublist)
qed

lemma scan_body_ok:
  "aggregation_fault env = None \<Longrightarrow>
     scan_body env sr =
       Inr (sr \<lparr> findings := stamp (clock_stamp env)
                    (scanS3Buckets (s3_collect env) @ scanEC2 (ec2_collect env)
                      @ scanIAM (iam_collect env) @ scanRDS (rds_collect env)),
                summary := calculateSummary (clock_summary env)
                  (stamp (clock_stamp env)
                    (scanS3Buckets (s3_collect env) @ scanEC2 (ec2_collect env)
                      @ scanIAM (iam_collect env) @ scanRDS (rds_collect env))),
                endTime := Some (DateObj (clock_end env)),
                scan_status := completed \<rparr>)"
  by (simp add: scan_body_def catch_empty_def Let_def)

lemma scan_body_fault:
  "aggregation_fault env = Some e \<Longrightarrow> scan_body env sr = Inl e"
  by (simp add: scan_body_def Let_def)

lemma saveScanResult_eq:
  "saveScanResult fault r db =
     (Inr (),
      (case fault of
         Some e \<Rightarrow> db \<lparr> requests := requests db @ [PutItemCommand (prepareForStorage r)] \<rparr>
       | None \<Rightarrow> db \<lparr> requests := requests db @ [PutItemCommand (prepareForStorage r)],
                    table := filter (\<lambda>i. \<not> same_key i (prepareForStorage r)) (table db)
                               @ [prepareForStorage r] \<rparr>))"
  by (cases fault) (simp_all add: saveScanResult_def send_PutItem_def Let_def)

lemma stamp_append: "stamp now (xs @ ys) = stamp now xs @ stamp now ys"
  by (simp add: stamp_def)

lemma length_stamp: "length (stamp now xs) = length xs"
  by (simp add: stamp_def)

lemma timestamp_stamp: "f \<in> set (stamp now fs) \<Longrightarrow> timestamp f = Some (DateObj now)"
  by (auto simp add: stamp_def)

lemma map_timestamp_stamp:
  "map timestamp (stamp now fs) = replicate (length fs) (Some (DateObj now))"
  by (induction fs) (simp_all add: stamp_def)

lemma runFullScan_cases:
  "\<exists>r db'. runFullScan env db = (Inr r, db')
     \<and> db' = snd (saveScanResult (put_fault env) r db)
     \<and> (case aggregation_fault env of
          None \<Rightarrow>
            findings r = stamp (clock_stamp env)
                (scanS3Buckets (s3_collect env) @ scanEC2 (ec2_collect env)
                  @ scanIAM (iam_collect env) @ scanRDS (rds_collect env))
            \<and> summary r = calculateSummary (clock_summary env) (findings r)
            \<and> scan_status r = completed
        | Some e \<Rightarrow>
            findings r = [] \<and> summary r = summary (initial_scan env)
            \<and> scan_status r = failed_scan)
     \<and> endTime r = Some (DateObj (clock_end env))
     \<and> startTime r = DateObj (clock_start env)
     \<and> scanId r = new_scan_id env"
  by (cases "aggregation_fault env")
    (simp_all add: runFullScan_def scan_body_ok scan_body_fault initial_scan_def Let_def
      split: prod.splits)

text \<open>
  C3: when a scanner's collector raises, the scanner returns exactly one finding, with
  status ERROR, severity HIGH, the provider's sentinel id, and a message that contains the
  error's description; it returns normally. In a scan the findings are the stamped
  outputs of the four scanners one after the other, each a function of its own
  collector's outcome only, so a failing provider leaves the findings of the others as
  they are.
\<close>

theorem collector_failure_yields_one_error_finding:
  "scanS3Buckets (Inl e) =
     [\<lparr> resourceType = S3, resourceId = ''S3-SCANNER'', checkName = ''S3 Scan'', status = ERROR,
        severity = HIGH, message = ''Error scanning S3 buckets: '' @ error_string e,
        timestamp = None, region = None \<rparr>]
   \<and> scanEC2 (Inl e) =
     [\<lparr> resourceType = EC2, resourceId = ''EC2-SCANNER'', checkName = ''EC2 Scan'', status = ERROR,
        severity = HIGH, message = ''Error scanning EC2: '' @ error_string e,
        timestamp = None, region = None \<rparr>]
   \<and> scanIAM (Inl e) =
     [\<lparr> resourceType = IAM, resourceId = ''IAM-SCANNER'', checkName = ''IAM Scan'', status = ERROR,
        severity = HIGH, message = ''Error scanning IAM: '' @ error_string e,
        timestamp = None, region = None \<rparr>]
   \<and> scanRDS (Inl e) =
     [\<lparr> resourceType = RDS, resourceId = ''RDS-SCANNER'', checkName = ''RDS Scan'', status = ERROR,
        severity = HIGH, message = ''Error scanning RDS: '' @ error_string e,
        timestamp = None, region = None \<rparr>]
   \<and> sublist (err_message e) (intro @ error_string e)
   \<and> (aggregation_fault env = None \<longrightarrow>
        (\<exists>r db'. runFullScan env db = (Inr r, db')
           \<and> findings r =
               stamp (clock_stamp env) (scanS3Buckets (s3_collect env))
               @ stamp (clock_stamp env) (scanEC2 (ec2_collect env))
               @ stamp (clock_stamp env) (scanIAM (iam_collect env))
               @ stamp (clock_stamp env) (scanRDS (rds_collect env))
           \<and> length (findings r) =
               length (scanS3Buckets (s3_collect env)) + length (scanEC2 (ec2_collect env))
               + length (scanIAM (iam_collect env)) + length (scanRDS (rds_collect env))))"
proof -
  obtain r db' where run: "runFullScan env db = (Inr r, db')"
    and kind: "case aggregation_fault env of
          None \<Rightarrow>
            findings r = stamp (clock_stamp env)
                (scanS3Buckets (s3_collect env) @ scanEC2 (ec2_collect env)
                  @ scanIAM (iam_collect env) @ scanRDS (rds_collect env))
            \<and> summary r = calculateSummary (clock_summary env) (findings r)
            \<and> scan_status r = completed
        | Some e \<Rightarrow>
            findings r = [] \<and> summary r = summary (initial_scan env)
            \<and> scan_status r = failed_scan"
    using runFullScan_cases [of env db] by blast
  have r: "findings r = stamp (clock_stamp env)
        (scanS3Buckets (s3_collect env) @ scanEC2 (ec2_collect env)
          @ scanIAM (iam_collect env) @ scanRDS (rds_collect env))"
    if "aggregation_fault env = None"
    using kind that by simp
  have scan: "aggregation_fault env = None \<longrightarrow>
        (\<exists>r db'. runFullScan env db = (Inr r, db')
           \<and> findings r =
               stamp (clock_stamp env) (scanS3Buckets (s3_collect env))
               @ stamp (clock_stamp env) (scanEC2 (ec2_collect env))
               @ stamp (clock_stamp env) (scanIAM (iam_collect env))
               @ stamp (clock_stamp env) (scanRDS (rds_collect env))
           \<and> length (findings r) =
               length (scanS3Buckets (s3_collect env)) + length (scanEC2 (ec2_collect env))
               + length (scanIAM (iam_collect env)) + length (scanRDS (rds_collect env)))"
  proof
    assume ok: "aggregation_fault env = None"
    have "findings r =
               stamp (clock_stamp env) (scanS3Buckets (s3_collect env))
               @ stamp (clock_stamp env) (scanEC2 (ec2_collect env))
               @ stamp (clock_stamp env) (scanIAM (iam_collect env))
               @ stamp (clock_stamp env) (scanRDS (rds_collect env))"
      using r [OF ok] by (simp add: stamp_append)
    moreover have "length (findings r) =
               length (scanS3Buckets (s3_collect env)) + length (scanEC2 (ec2_collect env))
               + length (scanIAM (iam_collect env)) + length (scanRDS (rds_collect env))"
      using r [OF ok] by (simp add: length_stamp)
    ultimately show "\<exists>r db'. runFullScan env db = (Inr r, db')
           \<and> findings r =
               stamp (clock_stamp env) (scanS3Buckets (s3_collect env))
               @ stamp (clock_stamp env) (scanEC2 (ec2_collect env))
               @ stamp (clock_stamp env) (scanIAM (iam_collect env))
               @ stamp (clock_stamp env) (scanRDS (rds_collect env))
           \<and> length (findings r) =
               length (scanS3Buckets (s3_collect env)) + length (scanEC2 (ec2_collect env))
               + length (scanIAM (iam_collect env)) + length (scanRDS (rds_collect env))"
      using run by blast
  qed
  have "sublist (err_message e) (intro @ error_string e)"
    by (rule error_string_contains)
  then show ?thesis
    using scan by (simp add: scanS3Buckets_def scanEC2_def scanIAM_def scanRDS_def
        scanner_error_def)
qed

lemma example_findings:
  "scanS3Buckets (s3_collect example_env) @ scanEC2 (ec2_collect example_env)
     @ scanIAM (iam_collect example_env) @ scanRDS (rds_collect example_env)
   = [checkPublicAccess example_bucket, checkEncryption_s3 example_bucket,
      checkVersioning example_bucket,
      scanner_error EC2 ''EC2-SCANNER'' ''EC2 Scan'' ''Error scanning EC2: '' example_error,
      checkRootMFA False, checkMFAEnabled example_user, checkAdminAccess example_user]"
  by (simp add: example_env_def example_account_def scanS3Buckets_def scanIAM_def scanRDS_def
      scanEC2_def)

theorem collector_failure_yields_one_error_finding_witness:
  "\<exists>r db'. runFullScan example_env empty_db = (Inr r, db')
     \<and> map resourceId (findings r)
         = [''logs'', ''logs'', ''logs'', ''EC2-SCANNER'', ''ROOT-ACCOUNT'', ''alice'', ''alice'']
     \<and> map status (findings r) = [FAIL, PASS, FAIL, ERROR, FAIL, FAIL, FAIL]"
proof -
  have ok: "aggregation_fault example_env = None"
    by (simp add: example_env_def)
  obtain r db' where run: "runFullScan example_env empty_db = (Inr r, db')"
    and r: "findings r =
               stamp (clock_stamp example_env) (scanS3Buckets (s3_collect example_env))
               @ stamp (clock_stamp example_env) (scanEC2 (ec2_collect example_env))
               @ stamp (clock_stamp example_env) (scanIAM (iam_collect example_env))
               @ stamp (clock_stamp example_env) (scanRDS (rds_collect example_env))"
    using collector_failure_yields_one_error_finding
      [where env = example_env and db = empty_db and e = example_error] ok
    by blast
  have "findings r = stamp (clock_stamp example_env)
      [checkPublicAccess example_bucket, checkEncryption_s3 example_bucket,
       checkVersioning example_bucket,
       scanner_error EC2 ''EC2-SCANNER'' ''EC2 Scan'' ''Error scanning EC2: '' example_error,
       checkRootMFA False, checkMFAEnabled example_user, checkAdminAccess example_user]"
    using r example_findings by (simp add: stamp_append [symmetric])
  then have "map resourceId (findings r)
         = [''logs'', ''logs'', ''logs'', ''EC2-SCANNER'', ''ROOT-ACCOUNT'', ''alice'', ''alice'']
     \<and> map status (findings r) = [FAIL, PASS, FAIL, ERROR, FAIL, FAIL, FAIL]"
    by (simp add: stamp_def example_bucket_def example_user_def nothing_blocked_def
        scanner_error_def checkPublicAccess_def checkEncryption_s3_def
        checkVersioning_def checkRootMFA_def checkMFAEnabled_def checkAdminAccess_def Let_def)
  then show ?thesis
    using run by (intro exI [of _ r] exI [of _ db']) simp
qed

text \<open>
  C6: all findings of the scan that \<open>runFullScan\<close> returns carry the same timestamp,
  the reading of the clock taken once the findings of the four scanners are combined. A
  completed scan holds the findings of the four scanners, in their order, each with its
  timestamp set to that reading: none is dropped and none is left without a timestamp.
\<close>

theorem uniform_timestamp:
  "\<exists>r db'. runFullScan env db = (Inr r, db')
     \<and> (\<forall>f \<in> set (findings r). timestamp f = Some (DateObj (clock_stamp env)))
     \<and> map timestamp (findings r)
          = replicate (length (findings r)) (Some (DateObj (clock_stamp env)))
     \<and> (aggregation_fault env = None \<longrightarrow>
          scan_status r = completed
          \<and> findings r =
              map (\<lambda>f. f \<lparr> timestamp := Some (DateObj (clock_stamp env)) \<rparr>)
                (scanS3Buckets (s3_collect env) @ scanEC2 (ec2_collect env)
                  @ scanIAM (iam_collect env) @ scanRDS (rds_collect env))
          \<and> length (findings r) =
              length (scanS3Buckets (s3_collect env)) + length (scanEC2 (ec2_collect env))
              + length (scanIAM (iam_collect env)) + length (scanRDS (rds_collect env)))"
proof -
  obtain r db' where run: "runFullScan env db = (Inr r, db')"
    and r: "case aggregation_fault env of
          None \<Rightarrow>
            findings r = stamp (clock_stamp env)
                (scanS3Buckets (s3_collect env) @ scanEC2 (ec2_collect env)
                  @ scanIAM (iam_collect env) @ scanRDS (rds_collect env))
            \<and> summary r = calculateSummary (clock_summary env) (findings r)
            \<and> scan_status r = completed
        | Some e \<Rightarrow>
            findings r = [] \<and> summary r = summary (initial_scan env)
            \<and> scan_status r = failed_scan"
    using runFullScan_cases [of env db] by blast
  have same: "(\<forall>f \<in> set (findings r). timestamp f = Some (DateObj (clock_stamp env)))
     \<and> map timestamp (findings r)
          = replicate (length (findings r)) (Some (DateObj (clock_stamp env)))"
    using r by (cases "aggregation_fault env")
      (auto simp add: timestamp_stamp map_timestamp_stamp length_stamp)
  have all: "aggregation_fault env = None \<longrightarrow>
          scan_status r = completed
          \<and> findings r =
              map (\<lambda>f. f \<lparr> timestamp := Some (DateObj (clock_stamp env)) \<rparr>)
                (scanS3Buckets (s3_collect env) @ scanEC2 (ec2_collect env)
                  @ scanIAM (iam_collect env) @ scanRDS (rds_collect env))
          \<and> length (findings r) =
              length (scanS3Buckets (s3_collect env)) + length (scanEC2 (ec2_collect env))
              + length (scanIAM (iam_collect env)) + length (scanRDS (rds_collect env))"
  proof
    assume "aggregation_fault env = None"
    then have got: "findings r = stamp (clock_stamp env)
                (scanS3Buckets (s3_collect env) @ scanEC2 (ec2_collect env)
                  @ scanIAM (iam_collect env) @ scanRDS (rds_collect env))"
      and status: "scan_status r = completed"
      using r by simp_all
    have "findings r =
              map (\<lambda>f. f \<lparr> timestamp := Some (DateObj (clock_stamp env)) \<rparr>)
                (scanS3Buckets (s3_collect env) @ scanEC2 (ec2_collect env)
                  @ scanIAM (iam_collect env) @ scanRDS (rds_collect env))"
      unfolding got by (simp only: stamp_def)
    moreover from this have "length (findings r) =
              length (scanS3Buckets (s3_collect env)) + length (scanEC2 (ec2_collect env))
              + length (scanIAM (iam_collect env)) + length (scanRDS (rds_collect env))"
      by simp
    ultimately show "scan_status r = completed
          \<and> findings r =
              map (\<lambda>f. f \<lparr> timestamp := Some (DateObj (clock_stamp env)) \<rparr>)
                (scanS3Buckets (s3_collect env) @ scanEC2 (ec2_collect env)
                  @ scanIAM (iam_collect env) @ scanRDS (rds_collect env))
          \<and> length (findings r) =
              length (scanS3Buckets (s3_collect env)) + length (scanEC2 (ec2_collect env))
              + length (scanIAM (iam_collect env)) + length (scanRDS (rds_collect env))"
      using status by simp
  qed
  show ?thesis
    using run same all by (intro exI [of _ r] exI [of _ db']) simp
qed

theorem uniform_timestamp_witness:
  "aggregation_fault example_env = None
   \<and> (\<exists>r db'. runFullScan example_env empty_db = (Inr r, db')
        \<and> scan_status r = completed
        \<and> map resourceId (findings r)
            = [''logs'', ''logs'', ''logs'', ''EC2-SCANNER'', ''ROOT-ACCOUNT'', ''alice'',
               ''alice'']
        \<and> map timestamp (findings r)
            = [Some (DateObj 1730628000123), Some (DateObj 1730628000123),
               Some (DateObj 1730628000123), Some (DateObj 1730628000123),
               Some (DateObj 1730628000123), Some (DateObj 1730628000123),
               Some (DateObj 1730628000123)])"
proof -
  have ok: "aggregation_fault example_env = None"
    and clock: "clock_stamp example_env = 1730628000123"
    by (simp_all add: example_env_def)
  obtain r db' where run: "runFullScan example_env empty_db = (Inr r, db')"
    and status: "scan_status r = completed"
    and r: "findings r =
              map (\<lambda>f. f \<lparr> timestamp := Some (DateObj (clock_stamp example_env)) \<rparr>)
                (scanS3Buckets (s3_collect example_env) @ scanEC2 (ec2_collect example_env)
                  @ scanIAM (iam_collect example_env) @ scanRDS (rds_collect example_env))"
    using uniform_timestamp [of example_env empty_db] ok by blast
  have "map resourceId (findings r)
            = [''logs'', ''logs'', ''logs'', ''EC2-SCANNER'', ''ROOT-ACCOUNT'', ''alice'',
               ''alice'']
        \<and> map timestamp (findings r)
            = [Some (DateObj 1730628000123), Some (DateObj 1730628000123),
               Some (DateObj 1730628000123), Some (DateObj 1730628000123),
               Some (DateObj 1730628000123), Some (DateObj 1730628000123),
               Some (DateObj 1730628000123)]"
    unfolding r example_findings clock
    by (simp add: example_bucket_def example_user_def scanner_error_def checkPublicAccess_def
        checkEncryption_s3_def checkVersioning_def checkRootMFA_def checkMFAEnabled_def
        checkAdminAccess_def Let_def)
  then have "\<exists>r db'. runFullScan example_env empty_db = (Inr r, db')
        \<and> scan_status r = completed
        \<and> map resourceId (findings r)
            = [''logs'', ''logs'', ''logs'', ''EC2-SCANNER'', ''ROOT-ACCOUNT'', ''alice'',
               ''alice'']
        \<and> map timestamp (findings r)
            = [Some (DateObj 1730628000123), Some (DateObj 1730628000123),
               Some (DateObj 1730628000123), Some (DateObj 1730628000123),
               Some (DateObj 1730628000123), Some (DateObj 1730628000123),
               Some (DateObj 1730628000123)]"
    using run status by (intro exI [of _ r] exI [of _ db']) simp
  then show ?thesis using ok by simp
qed




subsection \<open>ISO date strings\<close>

lemma length_pad_digits: "length (pad_digits k n) = k"
  by (induction k arbitrary: n) simp_all

lemma of_char_digit: "d < 10 \<Longrightarrow> (of_char (digit_char d) :: nat) = 48 + d"
  by (simp add: digit_char_def)

lemma digit_char_less:
  "0 \<le> a \<Longrightarrow> a < 10 \<Longrightarrow> 0 \<le> b \<Longrightarrow> b < 10
     \<Longrightarrow> (digit_char (nat a) < digit_char (nat b)) = (a < b)"
  by (auto simp add: less_char_def of_char_digit)

lemma append_less_same_length:
  fixes a b :: "'a::linorder list"
  shows "length a = length b \<Longrightarrow> (a @ x < b @ y) = (a < b \<or> a = b \<and> x < y)"
  by (induction a b rule: list_induct2) auto

lemma less_by_digits:
  fixes n m :: int
  shows "(n < m) = (n div 10 < m div 10 \<or> n div 10 = m div 10 \<and> n mod 10 < m mod 10)"
  by presburger

lemma pad_digits_less:
  "0 \<le> n \<Longrightarrow> n < 10 ^ k \<Longrightarrow> 0 \<le> m \<Longrightarrow> m < 10 ^ k
     \<Longrightarrow> (pad_digits k n < pad_digits k m) = (n < m)"
proof (induction k arbitrary: n m)
  case 0
  then show ?case by simp
next
  case (Suc k)
  have n: "0 \<le> n div 10" "n div 10 < 10 ^ k" "0 \<le> n mod 10" "n mod 10 < 10"
    using Suc.prems by simp_all
  have m: "0 \<le> m div 10" "m div 10 < 10 ^ k" "0 \<le> m mod 10" "m mod 10 < 10"
    using Suc.prems by simp_all
  have lt: "(pad_digits k (n div 10) < pad_digits k (m div 10)) = (n div 10 < m div 10)"
    using Suc.IH [of "n div 10" "m div 10"] n m by simp
  have gt: "(pad_digits k (m div 10) < pad_digits k (n div 10)) = (m div 10 < n div 10)"
    using Suc.IH [of "m div 10" "n div 10"] n m by simp
  have eq: "(pad_digits k (n div 10) = pad_digits k (m div 10)) = (n div 10 = m div 10)"
    using lt gt by (metis less_irrefl linorder_neqE_linordered_idom)
  have "(pad_digits (Suc k) n < pad_digits (Suc k) m)
      = (n div 10 < m div 10 \<or> n div 10 = m div 10 \<and> n mod 10 < m mod 10)"
    using lt eq n m
    by (simp add: append_less_same_length length_pad_digits digit_char_less)
  then show ?case using less_by_digits [of n m] by simp
qed

lemma pad_digits_eq:
  "0 \<le> n \<Longrightarrow> n < 10 ^ k \<Longrightarrow> 0 \<le> m \<Longrightarrow> m < 10 ^ k
     \<Longrightarrow> (pad_digits k n = pad_digits k m) = (n = m)"
  using pad_digits_less [of n k m] pad_digits_less [of m k n]
  by (metis less_irrefl linorder_neqE_linordered_idom)

lemma div_bracket:
  fixes x k :: int
  assumes "0 < k"
  shows "k * (x div k) \<le> x" and "x < k * (x div k) + k"
proof -
  have "x = k * (x div k) + x mod k" by simp
  moreover have "0 \<le> x mod k" "x mod k < k" using assms by simp_all
  ultimately show "k * (x div k) \<le> x" and "x < k * (x div k) + k" by linarith+
qed

lemma div_succ_bounds:
  fixes x k :: int
  assumes "0 < k"
  shows "x div k \<le> (x + 1) div k" and "(x + 1) div k \<le> x div k + 1"
proof -
  show "x div k \<le> (x + 1) div k"
    using assms by (intro zdiv_mono1) simp_all
  have "(x + 1) div k \<le> (x + k) div k"
    using assms by (intro zdiv_mono1) simp_all
  also have "(x + k) div k = x div k + 1"
    using assms by (simp add: div_add_self2)
  finally show "(x + 1) div k \<le> x div k + 1" .
qed

lemma lower_aux:
  fixes y a b c :: int
  assumes "y - 1969 < 4 * a + 4" "100 * b \<le> y - 1901" "y - 1601 < 400 * c + 400"
  shows "146097 * (y - 1970) - 506 \<le> 400 * (365 * (y - 1970) + a - b + c)"
  using assms by (simp add: algebra_simps)

lemma upper_aux:
  fixes y a b c :: int
  assumes "4 * a \<le> y - 1969" "y - 1901 < 100 * b + 100" "400 * c \<le> y - 1601"
  shows "400 * (365 * (y - 1970) + a - b + c) \<le> 146097 * (y - 1970) + 589"
  using assms by (simp add: algebra_simps)

lemma DayFromYear_lower: "146097 * (y - 1970) - 506 \<le> 400 * DayFromYear y"
  unfolding DayFromYear_def
  by (rule lower_aux) (simp_all add: div_bracket)

lemma DayFromYear_upper: "400 * DayFromYear y \<le> 146097 * (y - 1970) + 589"
  unfolding DayFromYear_def
  by (rule upper_aux) (simp_all add: div_bracket)

lemma step_aux:
  fixes y a a' b b' c c' :: int
  assumes "a \<le> a'" "a' \<le> a + 1" "b \<le> b'" "b' \<le> b + 1" "c \<le> c'" "c' \<le> c + 1"
  shows "365 * (y - 1970) + a - b + c + 364 \<le> 365 * (y + 1 - 1970) + a' - b' + c'"
    and "365 * (y + 1 - 1970) + a' - b' + c' \<le> 365 * (y - 1970) + a - b + c + 367"
  using assms by (simp_all add: algebra_simps)

lemma DayFromYear_step_lower: "DayFromYear y + 364 \<le> DayFromYear (y + 1)"
proof -
  have e: "y + 1 - 1969 = y - 1969 + 1" "y + 1 - 1901 = y - 1901 + 1" "y + 1 - 1601 = y - 1601 + 1"
    by simp_all
  show ?thesis
    unfolding DayFromYear_def e
    by (rule step_aux(1)) (rule div_succ_bounds, simp)+
qed

lemma DayFromYear_step_upper: "DayFromYear (y + 1) \<le> DayFromYear y + 367"
proof -
  have e: "y + 1 - 1969 = y - 1969 + 1" "y + 1 - 1901 = y - 1901 + 1" "y + 1 - 1601 = y - 1601 + 1"
    by simp_all
  show ?thesis
    unfolding DayFromYear_def e
    by (rule step_aux(2)) (rule div_succ_bounds, simp)+
qed

lemma DayFromYear_strict_mono: "y < y' \<Longrightarrow> DayFromYear y < DayFromYear y'"
proof (induction y' rule: int_gr_induct)
  case base
  show ?case using DayFromYear_step_lower [of y] by linarith
next
  case (step i)
  then show ?case using DayFromYear_step_lower [of i] by linarith
qed

lemma DayFromYear_mono: "y \<le> y' \<Longrightarrow> DayFromYear y \<le> DayFromYear y'"
  using DayFromYear_strict_mono [of y y'] by (cases "y = y'") simp_all

lemma estimate_aux:
  fixes q d lo hi :: int
  assumes "146097 * q \<le> 400 * d" "400 * d < 146097 * q + 146097"
    and "400 * lo \<le> 146097 * (q - 1) + 589" "146097 * (q + 2) - 506 \<le> 400 * hi"
  shows "lo \<le> d" and "d < hi"
  using assms by (simp_all add: algebra_simps)

lemma YearFromDay_cases:
  "YearFromDay d =
      (if DayFromYear (1970 + (400 * d) div 146097 + 1) \<le> d then 1970 + (400 * d) div 146097 + 1
       else if DayFromYear (1970 + (400 * d) div 146097) \<le> d then 1970 + (400 * d) div 146097
       else 1970 + (400 * d) div 146097 - 1)"
  by (simp add: YearFromDay_def Let_def)

lemma YearFromDay_estimate:
  "DayFromYear (1970 + (400 * d) div 146097 - 1) \<le> d"
  "d < DayFromYear (1970 + (400 * d) div 146097 + 1 + 1)"
proof -
  define q where "q = (400 * d) div 146097"
  have q: "146097 * q \<le> 400 * d" "400 * d < 146097 * q + 146097"
    unfolding q_def by (rule div_bracket, simp)+
  have u: "400 * DayFromYear (1970 + q - 1) \<le> 146097 * (q - 1) + 589"
    using DayFromYear_upper [of "1970 + q - 1"] by simp
  have l: "146097 * (q + 2) - 506 \<le> 400 * DayFromYear (1970 + q + 1 + 1)"
    using DayFromYear_lower [of "1970 + q + 1 + 1"] by simp
  show "DayFromYear (1970 + (400 * d) div 146097 - 1) \<le> d"
    using estimate_aux(1) [OF q u l] by (simp add: q_def)
  show "d < DayFromYear (1970 + (400 * d) div 146097 + 1 + 1)"
    using estimate_aux(2) [OF q u l] by (simp add: q_def)
qed

lemma YearFromDay_lower: "DayFromYear (YearFromDay d) \<le> d"
  unfolding YearFromDay_cases using YearFromDay_estimate(1) [of d] by simp

lemma YearFromDay_upper: "d < DayFromYear (YearFromDay d + 1)"
  unfolding YearFromDay_cases using YearFromDay_estimate(2) [of d] by auto

lemma YearFromDay_mono: "d \<le> d' \<Longrightarrow> YearFromDay d \<le> YearFromDay d'"
proof (rule ccontr)
  assume le: "d \<le> d'" and "\<not> YearFromDay d \<le> YearFromDay d'"
  then have "YearFromDay d' + 1 \<le> YearFromDay d" by simp
  then have "DayFromYear (YearFromDay d' + 1) \<le> DayFromYear (YearFromDay d)"
    by (rule DayFromYear_mono)
  then show False
    using YearFromDay_upper [of d'] YearFromDay_lower [of d] le by linarith
qed

lemma div_mod_lex:
  fixes x x' k :: int
  assumes "0 < k" "x < x'"
  shows "x div k < x' div k \<or> (x div k = x' div k \<and> x mod k < x' mod k)"
proof -
  have le: "x div k \<le> x' div k"
    using assms by (intro zdiv_mono1) simp_all
  have x: "x = k * (x div k) + x mod k" and x': "x' = k * (x' div k) + x' mod k"
    by simp_all
  show ?thesis
  proof (cases "x div k = x' div k")
    case True
    then show ?thesis using x x' assms(2) by (metis add_less_cancel_left)
  next
    case False
    then show ?thesis using le by simp
  qed
qed

lemma MonthFromDay_range: "0 \<le> MonthFromDay dwy leap" "MonthFromDay dwy leap \<le> 11"
  by (simp_all add: MonthFromDay_def)

lemma MonthFromDay_mono:
  "dwy \<le> dwy' \<Longrightarrow> MonthFromDay dwy leap \<le> MonthFromDay dwy' leap"
  by (simp add: MonthFromDay_def)

lemma DateFromDay_same_month:
  "MonthFromDay dwy leap = MonthFromDay dwy' leap
     \<Longrightarrow> DateFromDay dwy leap - DateFromDay dwy' leap = dwy - dwy'"
  by (simp add: DateFromDay_def Let_def)

lemma DateFromDay_range:
  "0 \<le> dwy \<Longrightarrow> dwy \<le> 366 \<Longrightarrow> 0 \<le> leap \<Longrightarrow> leap \<le> 1
     \<Longrightarrow> 1 \<le> DateFromDay dwy leap \<and> DateFromDay dwy leap \<le> 99"
  by (simp add: DateFromDay_def MonthFromDay_def Let_def)

lemma month_date_lex:
  assumes "dwy < dwy'"
  shows "MonthFromDay dwy leap < MonthFromDay dwy' leap
     \<or> (MonthFromDay dwy leap = MonthFromDay dwy' leap
         \<and> DateFromDay dwy leap < DateFromDay dwy' leap)"
proof (cases "MonthFromDay dwy leap = MonthFromDay dwy' leap")
  case True
  then show ?thesis using DateFromDay_same_month [of dwy leap dwy'] assms by simp
next
  case False
  then show ?thesis using MonthFromDay_mono [of dwy dwy' leap] assms by simp
qed

lemma InLeapYear_range: "0 \<le> InLeapYear y" "InLeapYear y \<le> 1"
  by (simp_all add: InLeapYear_def)

lemma DayWithinYear_range: "0 \<le> DayWithinYear t" "DayWithinYear t \<le> 366"
  using YearFromDay_lower [of "Day t"] YearFromDay_upper [of "Day t"]
    DayFromYear_step_upper [of "YearFromDay (Day t)"]
  by (simp_all add: DayWithinYear_def YearFromTime_def)

lemma day_lex:
  assumes "Day t < Day t'"
  shows "[YearFromTime t, MonthFromTime t + 1, DateFromTime t]
       < [YearFromTime t', MonthFromTime t' + 1, DateFromTime t']"
proof (cases "YearFromTime t = YearFromTime t'")
  case True
  then have "DayWithinYear t < DayWithinYear t'"
    using assms by (simp add: DayWithinYear_def)
  then show ?thesis
    using True month_date_lex [of "DayWithinYear t" "DayWithinYear t'" "InLeapYear (YearFromTime t)"]
    by (auto simp add: MonthFromTime_def DateFromTime_def)
next
  case False
  then have "YearFromTime t < YearFromTime t'"
    using YearFromDay_mono [of "Day t" "Day t'"] assms by (simp add: YearFromTime_def)
  then show ?thesis by simp
qed

lemma time_split:
  fixes t :: int
  shows "t div 1000 div 60 = t div 60000" "t div 60000 div 60 = t div 3600000"
    "t div 3600000 div 24 = Day t"
  by (simp_all add: Day_def msPerDay_def zdiv_zmult2_eq [symmetric])

lemma iso_fields_strict_mono:
  assumes "t < t'"
  shows "iso_fields t < iso_fields t'"
proof -
  have ms: "t div 1000 < t' div 1000 \<or> (t div 1000 = t' div 1000 \<and> msFromTime t < msFromTime t')"
    using div_mod_lex [of 1000 t t'] assms by (simp add: msFromTime_def)
  have s: "t div 1000 < t' div 1000 \<Longrightarrow>
      t div 60000 < t' div 60000 \<or> (t div 60000 = t' div 60000 \<and> SecFromTime t < SecFromTime t')"
    using div_mod_lex [of 60 "t div 1000" "t' div 1000"] by (simp add: SecFromTime_def time_split)
  have mi: "t div 60000 < t' div 60000 \<Longrightarrow>
      t div 3600000 < t' div 3600000
        \<or> (t div 3600000 = t' div 3600000 \<and> MinFromTime t < MinFromTime t')"
    using div_mod_lex [of 60 "t div 60000" "t' div 60000"] by (simp add: MinFromTime_def time_split)
  have h: "t div 3600000 < t' div 3600000 \<Longrightarrow>
      Day t < Day t' \<or> (Day t = Day t' \<and> HourFromTime t < HourFromTime t')"
    using div_mod_lex [of 24 "t div 3600000" "t' div 3600000"]
    by (simp add: HourFromTime_def time_split)
  have e1: "t div 1000 = t' div 1000 \<Longrightarrow> t div 60000 = t' div 60000 \<and> SecFromTime t = SecFromTime t'"
    by (metis SecFromTime_def time_split(1))
  have e2: "t div 60000 = t' div 60000 \<Longrightarrow>
      t div 3600000 = t' div 3600000 \<and> MinFromTime t = MinFromTime t'"
    by (metis MinFromTime_def time_split(2))
  have e3: "t div 3600000 = t' div 3600000 \<Longrightarrow> Day t = Day t' \<and> HourFromTime t = HourFromTime t'"
    by (metis HourFromTime_def time_split(3))
  have e4: "Day t = Day t' \<Longrightarrow> YearFromTime t = YearFromTime t' \<and> MonthFromTime t = MonthFromTime t'
      \<and> DateFromTime t = DateFromTime t'"
    by (simp add: YearFromTime_def MonthFromTime_def DateFromTime_def DayWithinYear_def)
  have d: "Day t < Day t' \<Longrightarrow> YearFromTime t < YearFromTime t'
      \<or> YearFromTime t = YearFromTime t' \<and> (MonthFromTime t < MonthFromTime t'
      \<or> MonthFromTime t = MonthFromTime t' \<and> DateFromTime t < DateFromTime t')"
    using day_lex [of t t'] by auto
  show ?thesis
    unfolding iso_fields_def using ms s mi h e1 e2 e3 e4 d
    by (simp only: Cons_less_Cons add_less_cancel_right add_right_cancel) blast
qed

lemma field_less:
  assumes "0 \<le> n" "n < 10 ^ k" "0 \<le> m" "m < 10 ^ k"
  shows "(pad_digits k n @ c # r < pad_digits k m @ c # r') = (n < m \<or> n = m \<and> r < r')"
  using assms
  by (simp add: append_less_same_length length_pad_digits pad_digits_less pad_digits_eq)

lemma field_ranges:
  "0 \<le> MonthFromTime t + 1" "MonthFromTime t + 1 < 100"
  "0 \<le> DateFromTime t" "DateFromTime t < 100"
  "0 \<le> HourFromTime t" "HourFromTime t < 100"
  "0 \<le> MinFromTime t" "MinFromTime t < 100"
  "0 \<le> SecFromTime t" "SecFromTime t < 100"
  "0 \<le> msFromTime t" "msFromTime t < 1000"
  using MonthFromDay_range [of "DayWithinYear t" "InLeapYear (YearFromTime t)"]
    DateFromDay_range [OF DayWithinYear_range InLeapYear_range, of t "YearFromTime t"]
  by (simp_all add: MonthFromTime_def DateFromTime_def HourFromTime_def MinFromTime_def
      SecFromTime_def msFromTime_def)

lemma toISOString_less_iff:
  assumes "0 \<le> YearFromTime t" "YearFromTime t \<le> 9999"
    and "0 \<le> YearFromTime t'" "YearFromTime t' \<le> 9999"
  shows "(toISOString t < toISOString t') = (iso_fields t < iso_fields t')"
  using assms
  by (simp add: toISOString_def iso_fields_def year_string_def field_less field_ranges)

lemma YearFromTime_ge: "DayFromYear y \<le> Day t \<Longrightarrow> y \<le> YearFromTime t"
proof (rule ccontr)
  assume lo: "DayFromYear y \<le> Day t" and "\<not> y \<le> YearFromTime t"
  then have "YearFromDay (Day t) + 1 \<le> y" by (simp add: YearFromTime_def)
  then have "DayFromYear (YearFromDay (Day t) + 1) \<le> DayFromYear y"
    by (rule DayFromYear_mono)
  then show False using YearFromDay_upper [of "Day t"] lo by linarith
qed

lemma YearFromTime_less: "Day t < DayFromYear y \<Longrightarrow> YearFromTime t < y"
proof (rule ccontr)
  assume hi: "Day t < DayFromYear y" and "\<not> YearFromTime t < y"
  then have "y \<le> YearFromDay (Day t)" by (simp add: YearFromTime_def)
  then have "DayFromYear y \<le> DayFromYear (YearFromDay (Day t))"
    by (rule DayFromYear_mono)
  then show False using YearFromDay_lower [of "Day t"] hi by linarith
qed

lemma YearFromTime_range:
  assumes "-62167219200000 \<le> t" "t < 253402300800000"
  shows "0 \<le> YearFromTime t" "YearFromTime t \<le> 9999"
proof -
  have "DayFromYear 0 \<le> Day t"
    using assms(1) zdiv_mono1 [of "-62167219200000" t 86400000]
    by (simp add: DayFromYear_def Day_def msPerDay_def)
  then show "0 \<le> YearFromTime t" by (rule YearFromTime_ge)
  have "Day t < DayFromYear 10000"
    using assms(2) zdiv_mono1 [of t 253402300799999 86400000]
    by (simp add: DayFromYear_def Day_def msPerDay_def)
  then show "YearFromTime t \<le> 9999" using YearFromTime_less [of t 10000] by simp
qed

lemma YearFromTime_valid:
  assumes "\<bar>t\<bar> \<le> 8640000000000000"
  shows "\<bar>YearFromTime t\<bar> < 10 ^ 6"
proof -
  have "DayFromYear (-271821) \<le> Day t"
    using assms zdiv_mono1 [of "-8640000000000000" t 86400000]
    by (simp add: DayFromYear_def Day_def msPerDay_def)
  then have "-271821 \<le> YearFromTime t" by (rule YearFromTime_ge)
  moreover have "Day t < DayFromYear 275761"
    using assms zdiv_mono1 [of t 8640000000000000 86400000]
    by (simp add: DayFromYear_def Day_def msPerDay_def)
  then have "YearFromTime t < 275761" by (rule YearFromTime_less)
  ultimately show ?thesis by simp
qed

lemma field_eq:
  assumes "0 \<le> n" "n < 10 ^ k" "0 \<le> m" "m < 10 ^ k"
  shows "(pad_digits k n @ c # r = pad_digits k m @ c # r') = (n = m \<and> r = r')"
  using assms by (simp add: length_pad_digits pad_digits_eq)

lemma length_year_string:
  "length (year_string y) = (if 0 \<le> y \<and> y \<le> 9999 then 4 else 7)"
  by (simp add: year_string_def length_pad_digits)

lemma year_string_inj:
  assumes "\<bar>y\<bar> < 10 ^ 6" "\<bar>y'\<bar> < 10 ^ 6" "year_string y = year_string y'"
  shows "y = y'"
proof -
  have len: "(0 \<le> y \<and> y \<le> 9999) = (0 \<le> y' \<and> y' \<le> 9999)"
    using arg_cong [OF assms(3), of length] by (auto simp add: length_year_string split: if_splits)
  show ?thesis
  proof (cases "0 \<le> y \<and> y \<le> 9999")
    case True
    then show ?thesis
      using assms(3) len pad_digits_eq [of y 4 y'] by (simp add: year_string_def)
  next
    case False
    then have "(y < 0) = (y' < 0)" "pad_digits 6 \<bar>y\<bar> = pad_digits 6 \<bar>y'\<bar>"
      using assms(3) len by (auto simp add: year_string_def split: if_splits)
    then show ?thesis
      using assms(1,2) pad_digits_eq [of "\<bar>y\<bar>" 6 "\<bar>y'\<bar>"] by auto
  qed
qed

lemma toISOString_fields:
  assumes "\<bar>YearFromTime t\<bar> < 10 ^ 6" "\<bar>YearFromTime t'\<bar> < 10 ^ 6"
    and "toISOString t = toISOString t'"
  shows "iso_fields t = iso_fields t'"
proof -
  have len: "length (year_string (YearFromTime t)) = length (year_string (YearFromTime t'))"
    using arg_cong [OF assms(3), of length]
    by (simp add: toISOString_def length_pad_digits)
  have "year_string (YearFromTime t) = year_string (YearFromTime t')
      \<and> iso_fields t = YearFromTime t # tl (iso_fields t')"
    using assms(3) len
    by (simp add: toISOString_def iso_fields_def field_eq pad_digits_eq field_ranges)
  then show ?thesis
    using year_string_inj [OF assms(1,2)] by (simp add: iso_fields_def)
qed

theorem toISOString_inj:
  assumes "\<bar>a\<bar> \<le> 8640000000000000" "\<bar>b\<bar> \<le> 8640000000000000"
    and "toISOString a = toISOString b"
  shows "a = b"
proof -
  have eq: "iso_fields a = iso_fields b"
    using assms by (intro toISOString_fields YearFromTime_valid)
  show ?thesis
  proof (rule ccontr)
    assume "a \<noteq> b"
    then consider "a < b" | "b < a" by linarith
    then show False
      using iso_fields_strict_mono [of a b] iso_fields_strict_mono [of b a] eq
      by cases simp_all
  qed
qed

theorem toISOString_strict_mono:
  assumes "-62167219200000 \<le> a" "a < b" "b < 253402300800000"
  shows "toISOString a < toISOString b"
proof -
  have "iso_fields a < iso_fields b"
    using assms(2) by (rule iso_fields_strict_mono)
  moreover have "(toISOString a < toISOString b) = (iso_fields a < iso_fields b)"
    using assms by (intro toISOString_less_iff YearFromTime_range) simp_all
  ultimately show ?thesis by simp
qed

subsection \<open>Result store\<close>

lemma last_of_filter:
  "xs \<noteq> [] \<Longrightarrow> P (last xs) \<Longrightarrow> last (filter P xs) = last xs"
  by (induction xs rule: rev_induct) simp_all

lemma sorted_le_last:
  fixes ys :: "'k::linorder list"
  shows "sorted ys \<Longrightarrow> y \<in> set ys \<Longrightarrow> y \<le> last ys"
  by (induction ys) auto

lemma insort_key_over_map:
  "insort_key f (g x) (map g ys) = map g (insort_key (\<lambda>a. f (g a)) x ys)"
  by (induction ys) simp_all

lemma sort_key_over_map:
  "sort_key f (map g xs) = map g (sort_key (\<lambda>a. f (g a)) xs)"
  by (induction xs) (simp_all add: insort_key_over_map)

lemma take_1_rev: "xs \<noteq> [] \<Longrightarrow> take (Suc 0) (rev xs) = [last xs]"
  by (cases xs rule: rev_cases) simp_all

lemma last_sort_key:
  fixes f :: "'a \<Rightarrow> 'k::linorder"
  assumes "xs \<noteq> []"
  shows "last (sort_key f xs) \<in> set xs"
    and "\<forall>x \<in> set xs. f x \<le> f (last (sort_key f xs))"
    and "last (sort_key f xs) = last (filter (\<lambda>x. f x = f (last (sort_key f xs))) xs)"
proof -
  let ?ys = "sort_key f xs"
  have ne: "?ys \<noteq> []"
    using assms by (metis length_sort length_0_conv)
  show "last ?ys \<in> set xs"
    using last_in_set [OF ne] by simp
  show "\<forall>x \<in> set xs. f x \<le> f (last ?ys)"
  proof
    fix x assume "x \<in> set xs"
    then have "f x \<in> set (map f ?ys)" by simp
    moreover have "sorted (map f ?ys)" by simp
    ultimately have "f x \<le> last (map f ?ys)"
      by (rule sorted_le_last [rotated])
    then show "f x \<le> f (last ?ys)" using ne by (simp add: last_map)
  qed
  have "last (filter (\<lambda>x. f x = f (last ?ys)) ?ys) = last ?ys"
    using ne by (intro last_of_filter) simp_all
  then show "last ?ys = last (filter (\<lambda>x. f x = f (last ?ys)) xs)"
    by (simp add: sort_key_stable)
qed

lemma prepareForStorage_keys:
  "scanId (prepareForStorage r) = scanId r"
  "recordType (prepareForStorage r) = ''SCAN''"
  "createdAt (prepareForStorage r) = iso_text (startTime r)"
  "item_resourceId (prepareForStorage r) = ''METADATA''"
  by (simp_all add: prepareForStorage_def)

lemma persisted_snoc:
  "persisted (rs @ [r]) = snd (saveScanResult None r (persisted rs))"
  by (simp add: persisted_def)

lemma table_persisted:
  "distinct (map scanId rs) \<Longrightarrow> table (persisted rs) = map prepareForStorage rs"
proof (induction rs rule: rev_induct)
  case Nil
  show ?case by (simp add: persisted_def empty_db_def)
next
  case (snoc r rs)
  then have tab: "table (persisted rs) = map prepareForStorage rs"
    by simp
  have new: "scanId x \<noteq> scanId r" if "x \<in> set rs" for x
  proof
    assume "scanId x = scanId r"
    then have "scanId r \<in> scanId ` set rs" using that by (metis imageI)
    then show False using snoc.prems by simp
  qed
  have "filter (\<lambda>i. \<not> same_key i (prepareForStorage r)) (map prepareForStorage rs)
      = map prepareForStorage rs"
    using new by (auto simp add: filter_id_conv same_key_def prepareForStorage_keys)
  then show ?case
    by (simp add: persisted_snoc saveScanResult_eq tab)
qed

lemma getLatestScanResult_ok:
  "fst (getLatestScanResult None db) =
     (case index_query ''SCAN'' (table db) of [] \<Rightarrow> None | item # rest \<Rightarrow> Some item)"
  by (simp add: getLatestScanResult_def send_Query_def Let_def split: list.splits)

lemma getLatestScanResult_fault: "fst (getLatestScanResult (Some e) db) = None"
  by (simp add: getLatestScanResult_def send_Query_def Let_def)

lemma index_query_items:
  "index_query ''SCAN'' (map prepareForStorage rs) =
     (if rs = [] then []
      else [prepareForStorage (last (sort_key (\<lambda>r. iso_text (startTime r)) rs))])"
proof -
  have f: "filter (\<lambda>i. recordType i = ''SCAN'') (map prepareForStorage rs) = map prepareForStorage rs"
    by (simp add: filter_id_conv prepareForStorage_keys)
  have s: "sort_key createdAt (map prepareForStorage rs)
      = map prepareForStorage (sort_key (\<lambda>r. iso_text (startTime r)) rs)"
    by (simp add: sort_key_over_map prepareForStorage_keys)
  have ne: "rs \<noteq> [] \<Longrightarrow> sort_key (\<lambda>r. iso_text (startTime r)) rs \<noteq> []"
    by (metis length_sort length_0_conv)
  show ?thesis
    unfolding index_query_def f s One_nat_def
    using ne by (simp add: take_1_rev last_map)
qed

lemma toISOString_le_iff:
  assumes "four_digit_year a" "four_digit_year b"
  shows "(toISOString a \<le> toISOString b) = (a \<le> b)"
proof
  assume le: "toISOString a \<le> toISOString b"
  show "a \<le> b"
  proof (rule ccontr)
    assume "\<not> a \<le> b"
    then have "toISOString b < toISOString a"
      using assms by (intro toISOString_strict_mono) (simp_all add: four_digit_year_def)
    then show False using le by simp
  qed
next
  assume "a \<le> b"
  then consider "a = b" | "a < b" by linarith
  then show "toISOString a \<le> toISOString b"
  proof cases
    case 1
    then show ?thesis by simp
  next
    case 2
    then have "toISOString a < toISOString b"
      using assms by (intro toISOString_strict_mono) (simp_all add: four_digit_year_def)
    then show ?thesis by simp
  qed
qed

lemma toISOString_eq_iff:
  assumes "four_digit_year a" "four_digit_year b"
  shows "(toISOString a = toISOString b) = (a = b)"
  using toISOString_le_iff [OF assms] toISOString_le_iff [OF assms(2) assms(1)]
  by (metis order_antisym order_refl)

lemma iso_text_DateObj: "x = DateObj t \<Longrightarrow> iso_text x = toISOString t"
  by (simp add: iso_text_def)

text \<open>
  C8, amended: for scans with different ids saved one after the other, a query that
  succeeds returns nothing exactly when no scan was saved, and otherwise the stored form
  of the scan whose \<open>createdAt\<close>, the ISO string of its start time, is greatest, the
  last saved among equals, whatever its status. When the start times are dates whose year
  has four digits, this is the scan that started last, and among the scans that started
  at that instant the last saved. A query that fails returns nothing.
\<close>

theorem getLatest_returns_latest_started:
  assumes "distinct (map scanId rs)"
  shows "((fst (getLatestScanResult None (persisted rs)) = None) = (rs = []))
     \<and> (rs \<noteq> [] \<longrightarrow>
          (\<exists>r \<in> set rs.
             fst (getLatestScanResult None (persisted rs)) = Some (prepareForStorage r)
             \<and> scan_status (prepareForStorage r) = scan_status r
             \<and> (\<forall>r' \<in> set rs. iso_text (startTime r') \<le> iso_text (startTime r))
             \<and> r = last (filter (\<lambda>r'. iso_text (startTime r') = iso_text (startTime r)) rs)
             \<and> ((\<forall>r' \<in> set rs. \<exists>t. startTime r' = DateObj t \<and> four_digit_year t) \<longrightarrow>
                  (\<forall>r' \<in> set rs. \<forall>t t'. startTime r = DateObj t \<longrightarrow> startTime r' = DateObj t'
                      \<longrightarrow> t' \<le> t)
                  \<and> r = last (filter (\<lambda>r'. startTime r' = startTime r) rs))))
     \<and> fst (getLatestScanResult (Some e) (persisted rs)) = None"
proof -
  let ?key = "\<lambda>r. iso_text (startTime r)"
  let ?r = "last (sort_key ?key rs)"
  have latest: "fst (getLatestScanResult None (persisted rs))
      = (if rs = [] then None else Some (prepareForStorage ?r))"
    by (simp add: getLatestScanResult_ok table_persisted [OF assms] index_query_items)
  have found: "\<exists>r \<in> set rs.
             fst (getLatestScanResult None (persisted rs)) = Some (prepareForStorage r)
             \<and> scan_status (prepareForStorage r) = scan_status r
             \<and> (\<forall>r' \<in> set rs. iso_text (startTime r') \<le> iso_text (startTime r))
             \<and> r = last (filter (\<lambda>r'. iso_text (startTime r') = iso_text (startTime r)) rs)
             \<and> ((\<forall>r' \<in> set rs. \<exists>t. startTime r' = DateObj t \<and> four_digit_year t) \<longrightarrow>
                  (\<forall>r' \<in> set rs. \<forall>t t'. startTime r = DateObj t \<longrightarrow> startTime r' = DateObj t'
                      \<longrightarrow> t' \<le> t)
                  \<and> r = last (filter (\<lambda>r'. startTime r' = startTime r) rs))"
    if ne: "rs \<noteq> []"
  proof (rule bexI [of _ ?r], intro conjI impI)
    show mem: "?r \<in> set rs"
      using last_sort_key(1) [OF ne] .
    show "fst (getLatestScanResult None (persisted rs)) = Some (prepareForStorage ?r)"
      using latest ne by simp
    show "scan_status (prepareForStorage ?r) = scan_status ?r"
      by (simp add: prepareForStorage_def)
    show greatest: "\<forall>r' \<in> set rs. ?key r' \<le> ?key ?r"
      using last_sort_key(2) [OF ne] .
    show tie: "?r = last (filter (\<lambda>r'. ?key r' = ?key ?r) rs)"
      using last_sort_key(3) [OF ne] .
    assume dates: "\<forall>r' \<in> set rs. \<exists>t. startTime r' = DateObj t \<and> four_digit_year t"
    show "\<forall>r' \<in> set rs. \<forall>t t'. startTime ?r = DateObj t \<longrightarrow> startTime r' = DateObj t'
                      \<longrightarrow> t' \<le> t"
    proof (intro ballI allI impI)
      fix r' t t'
      assume r': "r' \<in> set rs" and t: "startTime ?r = DateObj t" and t': "startTime r' = DateObj t'"
      have "\<exists>u. startTime ?r = DateObj u \<and> four_digit_year u"
        using dates mem by (rule bspec)
      then obtain u where "startTime ?r = DateObj u" "four_digit_year u"
        by (elim exE conjE)
      then have "four_digit_year t" using t by simp
      moreover have "\<exists>u. startTime r' = DateObj u \<and> four_digit_year u"
        using dates r' by (rule bspec)
      then have "four_digit_year t'" using t' by auto
      moreover have "?key r' \<le> ?key ?r"
        using greatest r' by (rule bspec)
      then have "toISOString t' \<le> toISOString t"
        by (simp only: iso_text_DateObj [OF t] iso_text_DateObj [OF t'])
      ultimately show "t' \<le> t"
        by (simp add: toISOString_le_iff)
    qed
    have "(?key r' = ?key ?r) = (startTime r' = startTime ?r)" if "r' \<in> set rs" for r'
    proof -
      have "\<exists>u. startTime ?r = DateObj u \<and> four_digit_year u"
        using dates mem by (rule bspec)
      moreover have "\<exists>u. startTime r' = DateObj u \<and> four_digit_year u"
        using dates that by (rule bspec)
      ultimately obtain t t' where t: "startTime ?r = DateObj t" "four_digit_year t"
        and t': "startTime r' = DateObj t'" "four_digit_year t'"
        by (elim exE conjE)
      have a: "(?key r' = ?key ?r) = (toISOString t' = toISOString t)"
        by (simp only: iso_text_DateObj [OF t(1)] iso_text_DateObj [OF t'(1)])
      have b: "(startTime r' = startTime ?r) = (DateObj t' = DateObj t)"
        by (simp only: t(1) t'(1))
      show ?thesis
        unfolding a b using toISOString_eq_iff [OF t'(2) t(2)] by simp
    qed
    then have "filter (\<lambda>r'. ?key r' = ?key ?r) rs = filter (\<lambda>r'. startTime r' = startTime ?r) rs"
      by (intro filter_cong) simp_all
    then show "?r = last (filter (\<lambda>r'. startTime r' = startTime ?r) rs)"
      using tie by simp
  qed
  have none: "(fst (getLatestScanResult None (persisted rs)) = None) = (rs = [])"
    using latest by simp
  show ?thesis
    using none found getLatestScanResult_fault [of e "persisted rs"] by blast
qed

lemma iso_samples:
  "toISOString 0 = ''1970-01-01T00:00:00.000Z''"
  "toISOString 1 = ''1970-01-01T00:00:00.001Z''"
  "toISOString 1730628000000 = ''2024-11-03T10:00:00.000Z''"
  "toISOString 253402300800000 = ''+010000-01-01T00:00:00.000Z''"
  by code_simp+

lemma sort_two:
  "sort_key f [a, b] = (if f a \<le> f b then [a, b] else [b, a])"
  by simp

text \<open>
  C8 as stated fails twice. When the query fails, \<open>getLatestScanResult\<close> returns
  \<open>null\<close> although a scan is stored. And the index orders the scans by the ISO string
  of their start time, so a scan started in the year 10000, whose string begins with a
  plus sign, is ranked before one started in 1970.
\<close>

theorem getLatest_counterexample:
  "fst (getLatestScanResult (Some example_error) (persisted [epoch_scan])) = None
   \<and> table (persisted [epoch_scan]) = [prepareForStorage epoch_scan]
   \<and> startTime epoch_scan = DateObj 0
   \<and> startTime far_scan = DateObj 253402300800000
   \<and> fst (getLatestScanResult None (persisted [epoch_scan, far_scan]))
       = Some (prepareForStorage epoch_scan)"
proof -
  have one: "table (persisted [epoch_scan]) = map prepareForStorage [epoch_scan]"
    by (rule table_persisted) simp
  have two: "table (persisted [epoch_scan, far_scan]) = map prepareForStorage [epoch_scan, far_scan]"
    by (rule table_persisted) (simp add: epoch_scan_def far_scan_def)
  have keys: "iso_text (startTime epoch_scan) = ''1970-01-01T00:00:00.000Z''"
    "iso_text (startTime far_scan) = ''+010000-01-01T00:00:00.000Z''"
    by (simp_all add: epoch_scan_def far_scan_def iso_text_def iso_samples)
  have order: "\<not> (''1970-01-01T00:00:00.000Z'' \<le> ''+010000-01-01T00:00:00.000Z'')"
    by (simp add: less_eq_char_def less_char_def)
  have "fst (getLatestScanResult None (persisted [epoch_scan, far_scan]))
       = Some (prepareForStorage epoch_scan)"
    unfolding getLatestScanResult_ok two index_query_items sort_two keys
    using order by simp
  then show ?thesis
    using one by (simp add: getLatestScanResult_fault epoch_scan_def far_scan_def)
qed

theorem getLatest_returns_latest_started_witness:
  "distinct (map scanId [later_scan, epoch_scan])
   \<and> four_digit_year 0 \<and> four_digit_year 1730628000000
   \<and> scan_status later_scan = failed_scan
   \<and> fst (getLatestScanResult None (persisted [later_scan, epoch_scan]))
       = Some (prepareForStorage later_scan)"
proof -
  let ?rs = "[later_scan, epoch_scan]"
  have ids: "distinct (map scanId ?rs)"
    by (simp add: later_scan_def epoch_scan_def)
  have range: "four_digit_year 0" "four_digit_year 1730628000000"
    by (simp_all add: four_digit_year_def)
  have start: "startTime later_scan = DateObj 1730628000000" "startTime epoch_scan = DateObj 0"
    by (simp_all add: later_scan_def epoch_scan_def)
  have dates: "\<forall>r' \<in> set ?rs. \<exists>t. startTime r' = DateObj t \<and> four_digit_year t"
    using range start by simp
  obtain r where r: "r \<in> set ?rs"
    and got: "fst (getLatestScanResult None (persisted ?rs)) = Some (prepareForStorage r)"
    and late: "\<forall>r' \<in> set ?rs. \<forall>t t'. startTime r = DateObj t \<longrightarrow> startTime r' = DateObj t'
                      \<longrightarrow> t' \<le> t"
    using getLatest_returns_latest_started [OF ids, of example_error] dates by blast
  have "r \<noteq> epoch_scan"
  proof
    assume "r = epoch_scan"
    then have "(1730628000000::int) \<le> 0"
      using late start by simp
    then show False by simp
  qed
  then have "r = later_scan" using r by simp
  then show ?thesis
    using ids range got by (simp add: later_scan_def)
qed

lemma find_after_replace:
  "P y \<Longrightarrow> find P (filter (\<lambda>i. \<not> P i) xs @ [y]) = Some y"
  by (induction xs) simp_all

lemma get_after_save:
  "fst (getScanResult None (scanId r) (snd (saveScanResult None r db)))
     = Some (prepareForStorage r)"
proof -
  have "find (\<lambda>i. scanId i = scanId r \<and> item_resourceId i = ''METADATA'')
          (filter (\<lambda>i. \<not> (scanId i = scanId r \<and> item_resourceId i = ''METADATA'')) (table db)
             @ [prepareForStorage r])
        = Some (prepareForStorage r)"
    by (rule find_after_replace) (simp add: prepareForStorage_keys)
  then show ?thesis
    by (simp add: getScanResult_def send_GetItem_def saveScanResult_eq same_key_def
        prepareForStorage_keys Let_def)
qed

lemma serialize_date_idem: "serialize_date (serialize_date x) = serialize_date x"
  by (simp add: serialize_date_def iso_text_def)

lemma serialize_date_fun: "serialize_date = (\<lambda>d. DateStr (iso_text d))"
  by (simp add: fun_eq_iff serialize_date_def)

text \<open>
  C7 as stated fails: a scan saved with the start time 1970-01-01T00:00:00.000Z as a date
  is read back with the start time as a string, so the record read differs from the
  record saved.
\<close>

theorem store_round_trip_counterexample:
  "startTime epoch_scan = DateObj 0
   \<and> map_option startTime (fst (getScanResult None (scanId epoch_scan)
         (snd (saveScanResult None epoch_scan empty_db))))
       = Some (DateStr ''1970-01-01T00:00:00.000Z'')
   \<and> map_option ScanResult.truncate (fst (getScanResult None (scanId epoch_scan)
         (snd (saveScanResult None epoch_scan empty_db))))
       \<noteq> Some epoch_scan"
proof -
  have "startTime (prepareForStorage epoch_scan) = DateStr ''1970-01-01T00:00:00.000Z''"
    by (simp add: prepareForStorage_def serialize_date_def iso_text_def epoch_scan_def iso_samples)
  moreover have "startTime epoch_scan = DateObj 0"
    by (simp add: epoch_scan_def)
  ultimately have "startTime (ScanResult.truncate (prepareForStorage epoch_scan))
      \<noteq> startTime epoch_scan"
    by (simp add: ScanResult.truncate_def)
  then have "ScanResult.truncate (prepareForStorage epoch_scan) \<noteq> epoch_scan"
    by (rule contrapos_nn) simp
  then show ?thesis
    using \<open>startTime (prepareForStorage epoch_scan) = DateStr ''1970-01-01T00:00:00.000Z''\<close>
      \<open>startTime epoch_scan = DateObj 0\<close>
    by (simp add: get_after_save)
qed

text \<open>
  C7, amended: when the write and the read succeed, reading a saved scan by its id gives
  its stored form: id, status, counts and findings as saved, every date field replaced by
  its ISO string (never turned back into a date), and three more attributes, the record
  type SCAN, \<open>createdAt\<close> and the sort key METADATA. No precision is lost: two
  representable dates with the same ISO string are the same instant. Saving what was read
  stores the same item again.
\<close>

theorem store_round_trip:
  "fst (getScanResult None (scanId r) (snd (saveScanResult None r db)))
     = Some (prepareForStorage r)
   \<and> scanId (prepareForStorage r) = scanId r
   \<and> scan_status (prepareForStorage r) = scan_status r
   \<and> (summary (prepareForStorage r)) \<lparr> scanTime := scanTime (summary r) \<rparr> = summary r
   \<and> map (\<lambda>f. f \<lparr> timestamp := None \<rparr>) (findings (prepareForStorage r))
       = map (\<lambda>f. f \<lparr> timestamp := None \<rparr>) (findings r)
   \<and> startTime (prepareForStorage r) = DateStr (iso_text (startTime r))
   \<and> endTime (prepareForStorage r) = map_option (\<lambda>d. DateStr (iso_text d)) (endTime r)
   \<and> scanTime (summary (prepareForStorage r)) = DateStr (iso_text (scanTime (summary r)))
   \<and> map timestamp (findings (prepareForStorage r))
       = map (\<lambda>f. map_option (\<lambda>d. DateStr (iso_text d)) (timestamp f)) (findings r)
   \<and> recordType (prepareForStorage r) = ''SCAN''
   \<and> createdAt (prepareForStorage r) = iso_text (startTime r)
   \<and> item_resourceId (prepareForStorage r) = ''METADATA''
   \<and> (valid_time a \<and> valid_time b \<and> iso_text (DateObj a) = iso_text (DateObj b) \<longrightarrow> a = b)
   \<and> prepareForStorage (ScanResult.truncate (prepareForStorage r)) = prepareForStorage r"
proof -
  have inj: "valid_time a \<and> valid_time b \<and> iso_text (DateObj a) = iso_text (DateObj b)
      \<longrightarrow> a = b"
    using toISOString_inj [of a b] by (simp add: valid_time_def iso_text_def)
  have fields: "scanId (prepareForStorage r) = scanId r
   \<and> scan_status (prepareForStorage r) = scan_status r
   \<and> (summary (prepareForStorage r)) \<lparr> scanTime := scanTime (summary r) \<rparr> = summary r
   \<and> map (\<lambda>f. f \<lparr> timestamp := None \<rparr>) (findings (prepareForStorage r))
       = map (\<lambda>f. f \<lparr> timestamp := None \<rparr>) (findings r)
   \<and> startTime (prepareForStorage r) = DateStr (iso_text (startTime r))
   \<and> endTime (prepareForStorage r) = map_option (\<lambda>d. DateStr (iso_text d)) (endTime r)
   \<and> scanTime (summary (prepareForStorage r)) = DateStr (iso_text (scanTime (summary r)))
   \<and> map timestamp (findings (prepareForStorage r))
       = map (\<lambda>f. map_option (\<lambda>d. DateStr (iso_text d)) (timestamp f)) (findings r)"
    by (simp add: prepareForStorage_def serialize_date_fun o_def)
  have again: "prepareForStorage (ScanResult.truncate (prepareForStorage r)) = prepareForStorage r"
    by (simp add: prepareForStorage_def ScanResult.truncate_def serialize_date_idem
        option.map_comp o_def)
      (simp add: serialize_date_def iso_text_def)
  show ?thesis
    using inj fields again by (simp add: get_after_save prepareForStorage_keys)
qed

theorem store_round_trip_witness:
  "valid_time 0
   \<and> fst (getScanResult None ''scan-0-aaaaaaa'' (snd (saveScanResult None epoch_scan empty_db)))
       = Some (prepareForStorage epoch_scan)
   \<and> startTime (prepareForStorage epoch_scan) = DateStr ''1970-01-01T00:00:00.000Z''
   \<and> endTime (prepareForStorage epoch_scan) = Some (DateStr ''1970-01-01T00:00:00.001Z'')"
  using store_round_trip [of epoch_scan empty_db 0 0]
  by (simp add: valid_time_def epoch_scan_def iso_text_def iso_samples)

end
